theory Spec2Isabelle
  imports Main
begin

text \<open>
  The order form of the Ramadan Journal page: the form module
  (\<^verbatim>\<open>ramadan-journal/assets/js/modules/form-handler.js\<close>), which validates the fields,
  filters spam through a decoy field, stamps an order identifier and sends the order to
  a relay, and the UI module, which opens and closes the two modals and keeps track of
  the focus. Both are scripts over the page's document, so the model is a state of the
  page (the document, the variables of the two modules, the pending timers and a trace
  of what the page does towards the outside) and every function of the scripts is a
  function from state to state. What the scripts take from the browser while they run
  (the clock, the random number generator, the answer of the network) is an argument.
  \<^verbatim>\<open>handleSubmit\<close> is modelled from the event to the end of its \<^verbatim>\<open>finally\<close> block as
  one step: nothing else happens to the page while the request is awaited.
\<close>

section \<open>Strings\<close>

text \<open>
  JavaScript strings are modelled as \<^typ>\<open>string\<close>, lists of 8-bit characters: the
  model covers text whose code units are below 256. The white space of
  \<^verbatim>\<open>String.prototype.trim\<close> and of the regular-expression class \<^verbatim>\<open>\s\<close> is, in that
  range, TAB, LF, VT, FF, CR, SPACE and NBSP.
\<close>

definition is_space :: "char \<Rightarrow> bool" where
  "is_space c = (c = CHR 0x09 \<or> c = CHR 0x0A \<or> c = CHR 0x0B \<or> c = CHR 0x0C \<or>
                 c = CHR 0x0D \<or> c = CHR 0x20 \<or> c = CHR 0xA0)"

definition trim :: "string \<Rightarrow> string" where
  "trim s = rev (dropWhile is_space (rev (dropWhile is_space s)))"

definition in_range :: "char \<Rightarrow> char \<Rightarrow> char \<Rightarrow> bool" where
  "in_range lo hi c = ((of_char lo :: nat) \<le> of_char c \<and> (of_char c :: nat) \<le> of_char hi)"

definition is_digit :: "char \<Rightarrow> bool" where
  "is_digit c = in_range (CHR ''0'') (CHR ''9'') c"

definition is_lower :: "char \<Rightarrow> bool" where
  "is_lower c = in_range (CHR ''a'') (CHR ''z'') c"

definition is_upper :: "char \<Rightarrow> bool" where
  "is_upper c = in_range (CHR ''A'') (CHR ''Z'') c"

text \<open>\<^verbatim>\<open>toUpperCase\<close> on the ASCII letters; other characters are left as they are.\<close>

definition upper_char :: "char \<Rightarrow> char" where
  "upper_char c =
     (case map_of (zip ''abcdefghijklmnopqrstuvwxyz'' ''ABCDEFGHIJKLMNOPQRSTUVWXYZ'') c of
        None \<Rightarrow> c
      | Some u \<Rightarrow> u)"

definition toUpperCase :: "string \<Rightarrow> string" where
  "toUpperCase s = map upper_char s"

text \<open>\<^verbatim>\<open>s.substring(a, b)\<close> for \<open>a \<le> b\<close>: the characters at positions \<open>a\<close> to \<open>b - 1\<close>
  that exist.\<close>

definition substring :: "nat \<Rightarrow> nat \<Rightarrow> string \<Rightarrow> string" where
  "substring a b s = take (b - a) (drop a s)"

text \<open>\<^verbatim>\<open>s.includes(t)\<close>: \<open>t\<close> occurs in \<open>s\<close> as a contiguous block.\<close>

fun str_includes :: "string \<Rightarrow> string \<Rightarrow> bool" where
  "str_includes [] t = (t = [])"
| "str_includes (c # s) t = (take (length t) (c # s) = t \<or> str_includes s t)"

section \<open>Regular expressions of the validators\<close>

text \<open>
  Every pattern of the form handler is anchored at both ends and is a sequence of
  quantified character classes. A pattern is the list of its items: the class, the least
  number of repetitions and the greatest (\<open>None\<close> for unbounded). \<open>regex_test\<close> is
  \<^verbatim>\<open>RegExp.prototype.test\<close> for such a pattern: some split of the whole string matches
  the items in order.
\<close>

type_synonym regex_item = "(char \<Rightarrow> bool) \<times> nat \<times> nat option"

fun regex_test :: "regex_item list \<Rightarrow> string \<Rightarrow> bool" where
  "regex_test [] s = (s = [])"
| "regex_test ((cls, lo, hi) # rest) s =
     list_ex (\<lambda>k. list_all cls (take k s) \<and> regex_test rest (drop k s))
       [lo ..< Suc (case hi of None \<Rightarrow> length s | Some h \<Rightarrow> min h (length s))]"

text \<open>\<^verbatim>\<open>[^\s@]\<close>\<close>

definition not_space_at :: "char \<Rightarrow> bool" where
  "not_space_at c = (\<not> is_space c \<and> c \<noteq> CHR ''@'')"

text \<open>\<^verbatim>\<open>[0-9\s\-\(\)]\<close>\<close>

definition phone_char :: "char \<Rightarrow> bool" where
  "phone_char c = (is_digit c \<or> is_space c \<or> c = CHR ''-'' \<or> c = CHR ''('' \<or> c = CHR '')'')"

text \<open>\<^verbatim>\<open>[a-zA-Z\s\-']\<close>\<close>

definition name_char :: "char \<Rightarrow> bool" where
  "name_char c = (is_lower c \<or> is_upper c \<or> is_space c \<or> c = CHR ''-'' \<or> c = CHR 0x27)"

text \<open>\<^verbatim>\<open>[a-zA-Z0-9\s\-]\<close>\<close>

definition postal_char :: "char \<Rightarrow> bool" where
  "postal_char c = (is_lower c \<or> is_upper c \<or> is_digit c \<or> is_space c \<or> c = CHR ''-'')"

text \<open>
  The table \<^verbatim>\<open>patterns\<close>:
  \<^verbatim>\<open>email: /^[^\s@]+@[^\s@]+\.[^\s@]+$/\<close>,
  \<^verbatim>\<open>phone: /^[\+]?[0-9\s\-\(\)]{10,20}$/\<close>,
  \<^verbatim>\<open>name: /^[a-zA-Z\s\-']{2,50}$/\<close>,
  \<^verbatim>\<open>postalCode: /^[a-zA-Z0-9\s\-]{3,10}$/\<close>.
\<close>

definition patterns_email :: "regex_item list" where
  "patterns_email =
     [(not_space_at, 1, None), ((\<lambda>c. c = CHR ''@''), 1, Some 1), (not_space_at, 1, None),
      ((\<lambda>c. c = CHR ''.''), 1, Some 1), (not_space_at, 1, None)]"

definition patterns_phone :: "regex_item list" where
  "patterns_phone = [((\<lambda>c. c = CHR ''+''), 0, Some 1), (phone_char, 10, Some 20)]"

definition patterns_name :: "regex_item list" where
  "patterns_name = [(name_char, 2, Some 50)]"

definition patterns_postalCode :: "regex_item list" where
  "patterns_postalCode = [(postal_char, 3, Some 10)]"

section \<open>Order identifiers\<close>

text \<open>
  \<^verbatim>\<open>`${timestamp}`\<close> renders an integer in decimal.
\<close>

fun nat_toString :: "nat \<Rightarrow> string" where
  "nat_toString n =
     (if n < 10 then [''0123456789'' ! n]
      else nat_toString (n div 10) @ [''0123456789'' ! (n mod 10)])"

declare nat_toString.simps [simp del]

definition number_toString :: "int \<Rightarrow> string" where
  "number_toString i = (if i < 0 then ''-'' @ nat_toString (nat (- i)) else nat_toString (nat i))"

text \<open>
  \<^verbatim>\<open>generateOrderId\<close> reads the clock and the random number generator. Both are inputs
  of the model: \<open>now\<close> is the value of \<^verbatim>\<open>Date.now()\<close> and \<open>rnd\<close> is the string
  \<^verbatim>\<open>Math.random().toString(36)\<close>, the base-36 rendering of a number in \<open>[0, 1)\<close>.
\<close>

definition random_token :: "string \<Rightarrow> string" where
  "random_token rnd = toUpperCase (substring 2 9 rnd)"

definition generateOrderId :: "int \<Rightarrow> string \<Rightarrow> string" where
  "generateOrderId now rnd =
     (let timestamp = now;
          random = random_token rnd
      in ''RJ-'' @ number_toString timestamp @ ''-'' @ random)"

text \<open>
  The base-36 rendering of a number in \<open>[0, 1)\<close>: \<^verbatim>\<open>0\<close> alone for zero, otherwise
  \<^verbatim>\<open>0.\<close> followed by at least one digit out of \<^verbatim>\<open>0-9a-z\<close>.
\<close>

definition is_base36_lower :: "char \<Rightarrow> bool" where
  "is_base36_lower c = (c \<in> set ''0123456789abcdefghijklmnopqrstuvwxyz'')"

definition is_base36_upper :: "char \<Rightarrow> bool" where
  "is_base36_upper c = (c \<in> set ''0123456789ABCDEFGHIJKLMNOPQRSTUVWXYZ'')"

definition is_radix36_fraction :: "string \<Rightarrow> bool" where
  "is_radix36_fraction s =
     (s = ''0'' \<or> (take 2 s = ''0.'' \<and> drop 2 s \<noteq> [] \<and> list_all is_base36_lower (drop 2 s)))"

section \<open>The document\<close>

text \<open>
  The page is a list of elements in document order; a reference to an element is its
  position. An element carries the properties the two modules read or write. \<open>el_type\<close>
  is the \<^verbatim>\<open>type\<close> property of a form control (\<^verbatim>\<open>text\<close>, \<^verbatim>\<open>checkbox\<close>, \<^verbatim>\<open>select-one\<close>, ...)
  and empty for an element that is no control; \<open>el_ancestors\<close> lists the elements that
  contain it, at any depth. \<open>el_attrs\<close> holds the attributes the code sets or reads by
  name (\<^verbatim>\<open>action\<close>, \<^verbatim>\<open>aria-invalid\<close>, \<^verbatim>\<open>data-submitted\<close>, \<^verbatim>\<open>data-cleanup-fn\<close>) and the two
  that let an element other than a control take the focus (\<^verbatim>\<open>href\<close> of a link,
  \<^verbatim>\<open>tabindex\<close>).
\<close>

type_synonym ref = nat

record element =
  el_id :: string
  el_name :: string
  el_type :: string
  el_value :: string
  el_defaultValue :: string
  el_checked :: bool
  el_defaultChecked :: bool
  el_required :: bool
  el_disabled :: bool
  el_classList :: "string list"
  el_attrs :: "string \<rightharpoonup> string"
  el_textContent :: string
  el_display :: string
  el_ancestors :: "ref list"

text \<open>\<^verbatim>\<open>document.activeElement\<close> is the body when no element has the focus.\<close>

datatype target = Body | Element ref

text \<open>The object \<^verbatim>\<open>formFields\<close>: the cached references, \<open>None\<close> for \<^verbatim>\<open>null\<close>.\<close>

record formFields =
  ff_firstName :: "ref option"
  ff_lastName :: "ref option"
  ff_email :: "ref option"
  ff_phone :: "ref option"
  ff_addressLine1 :: "ref option"
  ff_addressLine2 :: "ref option"
  ff_city :: "ref option"
  ff_state :: "ref option"
  ff_postalCode :: "ref option"
  ff_country :: "ref option"
  ff_privacyConsent :: "ref option"
  ff_gotcha :: "ref option"

text \<open>\<^verbatim>\<open>Object.values(formFields)\<close>, in the order of the object literal.\<close>

definition Object_values :: "formFields \<Rightarrow> ref option list" where
  "Object_values ff =
     [ff_firstName ff, ff_lastName ff, ff_email ff, ff_phone ff, ff_addressLine1 ff,
      ff_addressLine2 ff, ff_city ff, ff_state ff, ff_postalCode ff, ff_country ff,
      ff_privacyConsent ff, ff_gotcha ff]"

text \<open>Callbacks handed to \<^verbatim>\<open>setTimeout\<close>, and what the page does that is seen from outside.\<close>

datatype task = FocusField "ref option" | UnlockFullPdf

datatype event =
    PreventDefault
  | ConsoleWarn string
  | ConsoleError string
  | Alert string
  | Fetch string string "(string \<times> string) list" "(string \<times> string) list"

text \<open>
  The state of the page: the document, the module variables of the form module
  (\<open>formFields\<close>) and of the UI module (\<open>activeModal\<close>, \<open>previousFocus\<close>), which of the
  globals \<^verbatim>\<open>window.closeOrderForm\<close>, \<^verbatim>\<open>window.formModule\<close> and \<^verbatim>\<open>window.pdfPreviewModule\<close>
  are defined, the timers that are pending (callback and delay), and the trace of
  events. A \<open>Fetch\<close> event carries the URL, the method, the entries of the body and the
  headers of a request.
\<close>

record state =
  doc :: "element list"
  body_overflow :: string
  activeElement :: target
  formFields :: formFields
  activeModal :: "ref option"
  previousFocus :: "target option"
  has_closeOrderForm :: bool
  has_formModule :: bool
  has_pdfPreviewModule :: bool
  timers :: "(task \<times> nat) list"
  trace :: "event list"

definition el :: "state \<Rightarrow> ref \<Rightarrow> element" where
  "el s r = doc s ! r"

definition upd :: "state \<Rightarrow> ref \<Rightarrow> (element \<Rightarrow> element) \<Rightarrow> state" where
  "upd s r f = s\<lparr>doc := (doc s)[r := f (doc s ! r)]\<rparr>"

definition emit :: "state \<Rightarrow> event \<Rightarrow> state" where
  "emit s e = s\<lparr>trace := trace s @ [e]\<rparr>"

text \<open>The events a run from \<open>s\<close> to \<open>s'\<close> has added to the trace.\<close>

definition emitted :: "state \<Rightarrow> state \<Rightarrow> event list" where
  "emitted s s' = drop (length (trace s)) (trace s')"

subsection \<open>The DOM operations the modules call\<close>

fun first_index :: "('a \<Rightarrow> bool) \<Rightarrow> 'a list \<Rightarrow> nat option" where
  "first_index P [] = None"
| "first_index P (x # xs) = (if P x then Some 0 else map_option Suc (first_index P xs))"

text \<open>\<^verbatim>\<open>document.getElementById(i)\<close>\<close>

definition getElementById :: "state \<Rightarrow> string \<Rightarrow> ref option" where
  "getElementById s i = first_index (\<lambda>e. el_id e = i) (doc s)"

text \<open>\<^verbatim>\<open>document.querySelector('[name="n"]')\<close>\<close>

definition querySelector_name :: "state \<Rightarrow> string \<Rightarrow> ref option" where
  "querySelector_name s n = first_index (\<lambda>e. el_name e = n) (doc s)"

text \<open>\<^verbatim>\<open>document.querySelector('.c')\<close>\<close>

definition querySelector_class :: "state \<Rightarrow> string \<Rightarrow> ref option" where
  "querySelector_class s c = first_index (\<lambda>e. c \<in> set (el_classList e)) (doc s)"

text \<open>\<^verbatim>\<open>parent.querySelector('.c')\<close>: the first descendant of \<open>parent\<close> with the class.\<close>

definition querySelector_within :: "state \<Rightarrow> ref \<Rightarrow> string \<Rightarrow> ref option" where
  "querySelector_within s parent c =
     first_index (\<lambda>e. parent \<in> set (el_ancestors e) \<and> c \<in> set (el_classList e)) (doc s)"

definition classList_remove :: "state \<Rightarrow> ref \<Rightarrow> string \<Rightarrow> state" where
  "classList_remove s r c = upd s r (\<lambda>e. e\<lparr>el_classList := removeAll c (el_classList e)\<rparr>)"

definition classList_add :: "state \<Rightarrow> ref \<Rightarrow> string \<Rightarrow> state" where
  "classList_add s r c =
     upd s r (\<lambda>e. e\<lparr>el_classList :=
       (if c \<in> set (el_classList e) then el_classList e else el_classList e @ [c])\<rparr>)"

definition setAttribute :: "state \<Rightarrow> ref \<Rightarrow> string \<Rightarrow> string \<Rightarrow> state" where
  "setAttribute s r k v = upd s r (\<lambda>e. e\<lparr>el_attrs := (el_attrs e)(k \<mapsto> v)\<rparr>)"

definition getAttribute :: "state \<Rightarrow> ref \<Rightarrow> string \<Rightarrow> string option" where
  "getAttribute s r k = el_attrs (el s r) k"

definition set_textContent :: "state \<Rightarrow> ref \<Rightarrow> string \<Rightarrow> state" where
  "set_textContent s r t = upd s r (\<lambda>e. e\<lparr>el_textContent := t\<rparr>)"

definition set_display :: "state \<Rightarrow> ref \<Rightarrow> string \<Rightarrow> state" where
  "set_display s r v = upd s r (\<lambda>e. e\<lparr>el_display := v\<rparr>)"

definition set_disabled :: "state \<Rightarrow> ref \<Rightarrow> bool \<Rightarrow> state" where
  "set_disabled s r b = upd s r (\<lambda>e. e\<lparr>el_disabled := b\<rparr>)"

text \<open>
  \<^verbatim>\<open>x.focus()\<close> moves the focus only to an element that can take it: a form control
  other than a hidden input, a link or an element with a \<^verbatim>\<open>tabindex\<close>, that is not
  disabled and is being rendered, which an element is when neither it nor an element
  that contains it has the display \<^verbatim>\<open>none\<close>. On any other element, and on the body, the
  call changes nothing. The display the model knows is the one of the \<^verbatim>\<open>style\<close> property,
  which is where the two modules write it.
\<close>

definition being_rendered :: "state \<Rightarrow> ref \<Rightarrow> bool" where
  "being_rendered s r =
     (el_display (el s r) \<noteq> ''none'' \<and>
      list_all (\<lambda>a. el_display (el s a) \<noteq> ''none'') (el_ancestors (el s r)))"

definition focusable :: "state \<Rightarrow> ref \<Rightarrow> bool" where
  "focusable s r =
     ((el_type (el s r) \<notin> set [[], ''hidden''] \<or> el_attrs (el s r) ''href'' \<noteq> None \<or>
       el_attrs (el s r) ''tabindex'' \<noteq> None) \<and>
      \<not> el_disabled (el s r) \<and> being_rendered s r)"

definition focus :: "state \<Rightarrow> target \<Rightarrow> state" where
  "focus s x =
     (case x of
        Body \<Rightarrow> s
      | Element r \<Rightarrow> if focusable s r then s\<lparr>activeElement := Element r\<rparr> else s)"

definition setTimeout :: "state \<Rightarrow> task \<Rightarrow> nat \<Rightarrow> state" where
  "setTimeout s cb delay = s\<lparr>timers := timers s @ [(cb, delay)]\<rparr>"

text \<open>
  \<^verbatim>\<open>form.reset()\<close>: every control of the form goes back to its default checkedness and,
  when its value is what the user enters or selects, to its default value. The value of
  a checkbox, a radio button, a hidden input or a button is its \<^verbatim>\<open>value\<close> attribute and
  stays; a file input is emptied.
\<close>

definition reset_control :: "element \<Rightarrow> element" where
  "reset_control e =
     (if el_type e = [] then e
      else e\<lparr>el_value :=
               (if el_type e \<in> set [''checkbox'', ''radio'', ''hidden'', ''submit'', ''image'',
                                     ''reset'', ''button'']
                then el_value e
                else if el_type e = ''file'' then []
                else el_defaultValue e),
             el_checked := el_defaultChecked e\<rparr>)"

definition form_reset :: "state \<Rightarrow> ref \<Rightarrow> state" where
  "form_reset s form =
     s\<lparr>doc := map (\<lambda>e. if form \<in> set (el_ancestors e) then reset_control e else e) (doc s)\<rparr>"

text \<open>
  \<^verbatim>\<open>new FormData(form)\<close>: one entry, name and current value, for each control of the form
  in document order that has a name and is not disabled; buttons contribute nothing, a
  checkbox or radio button only when it is checked. File inputs are outside the model.
\<close>

definition submittable :: "element \<Rightarrow> bool" where
  "submittable e =
     (el_name e \<noteq> [] \<and> \<not> el_disabled e \<and>
      el_type e \<notin> set [[], ''submit'', ''button'', ''reset'', ''image'', ''file''] \<and>
      (if el_type e = ''checkbox'' \<or> el_type e = ''radio'' then el_checked e else True))"

definition FormData_of :: "state \<Rightarrow> ref \<Rightarrow> (string \<times> string) list" where
  "FormData_of s form =
     map (\<lambda>e. (el_name e, el_value e))
       (filter (\<lambda>e. form \<in> set (el_ancestors e) \<and> submittable e) (doc s))"

text \<open>
  \<^verbatim>\<open>FormData.prototype.set(n, v)\<close>: the first entry named \<open>n\<close> takes the value and the
  other entries of that name go; with no such entry the pair is appended.
\<close>

fun FormData_set :: "(string \<times> string) list \<Rightarrow> string \<Rightarrow> string \<Rightarrow> (string \<times> string) list" where
  "FormData_set [] n v = [(n, v)]"
| "FormData_set ((k, x) # es) n v =
     (if k = n then (n, v) # filter (\<lambda>p. fst p \<noteq> n) es else (k, x) # FormData_set es n v)"

text \<open>\<^verbatim>\<open>FormData.prototype.get(n)\<close>: the value of the first entry named \<open>n\<close>.\<close>

definition FormData_get :: "(string \<times> string) list \<Rightarrow> string \<Rightarrow> string option" where
  "FormData_get es n = map_of es n"

section \<open>The form module\<close>

subsection \<open>Field validation\<close>

text \<open>
  The chain of rules of \<^verbatim>\<open>validateField\<close>, first failing rule first: it yields
  \<^verbatim>\<open>isValid\<close> and \<^verbatim>\<open>errorMessage\<close> from the field's name, its trimmed value and its
  \<^verbatim>\<open>required\<close>, \<^verbatim>\<open>type\<close> and \<^verbatim>\<open>checked\<close> properties. A string is truthy when it is not
  empty.
\<close>

definition field_rules :: "string \<Rightarrow> string \<Rightarrow> bool \<Rightarrow> string \<Rightarrow> bool \<Rightarrow> bool \<times> string" where
  "field_rules fieldName val required type checked =
     (if required \<and> val = [] then (False, ''This field is required'')
      else if fieldName = ''email'' \<and> val \<noteq> [] \<and> \<not> regex_test patterns_email val
        then (False, ''Please enter a valid email address'')
      else if fieldName = ''phone'' \<and> val \<noteq> [] \<and> \<not> regex_test patterns_phone val
        then (False, ''Please enter a valid phone number'')
      else if (fieldName = ''firstName'' \<or> fieldName = ''lastName'') \<and> val \<noteq> [] \<and>
              \<not> regex_test patterns_name val
        then (False, ''Please enter a valid name (2-50 characters)'')
      else if fieldName = ''postalCode'' \<and> val \<noteq> [] \<and> \<not> regex_test patterns_postalCode val
        then (False, ''Please enter a valid postal code'')
      else if type = ''checkbox'' \<and> required \<and> \<not> checked
        then (False, ''You must consent to the privacy policy'')
      else (True, []))"

text \<open>
  \<^verbatim>\<open>validateField(field)\<close> returns the verdict and leaves its marks on the page: the
  error slot \<^verbatim>\<open>${fieldName}Error\<close>, the class \<^verbatim>\<open>error\<close> and \<^verbatim>\<open>aria-invalid\<close>.
\<close>

definition validateField :: "state \<Rightarrow> ref option \<Rightarrow> bool \<times> state" where
  "validateField s fld =
     (case fld of
        None \<Rightarrow> (True, s)
      | Some field \<Rightarrow>
          let fieldName = el_name (el s field);
              val = trim (el_value (el s field));
              errorElement = getElementById s (fieldName @ ''Error'');
              s1 = (case errorElement of None \<Rightarrow> s | Some e \<Rightarrow> set_textContent s e []);
              s2 = classList_remove s1 field ''error''
          in if fieldName = ''_gotcha'' then (val = [], s2)
             else
               (case field_rules fieldName val (el_required (el s2 field))
                       (el_type (el s2 field)) (el_checked (el s2 field)) of
                  (isValid, errorMessage) \<Rightarrow>
                    if \<not> isValid then
                      let s3 = classList_add s2 field ''error'';
                          s4 = (case errorElement of
                                  None \<Rightarrow> s3
                                | Some e \<Rightarrow> set_textContent s3 e errorMessage)
                      in (False, setAttribute s4 field ''aria-invalid'' ''true'')
                    else (True, setAttribute s2 field ''aria-invalid'' ''false'')))"

text \<open>
  \<^verbatim>\<open>validateForm\<close>: the callback of \<^verbatim>\<open>forEach\<close> is \<open>validateForm_step\<close>, run over
  \<^verbatim>\<open>Object.values(formFields)\<close> with the flag \<^verbatim>\<open>isValid\<close> and the page as accumulator.
\<close>

definition validateForm_step :: "ref option \<Rightarrow> bool \<times> state \<Rightarrow> bool \<times> state" where
  "validateForm_step fld acc =
     (case acc of (isValid, s) \<Rightarrow>
        (case fld of
           None \<Rightarrow> (isValid, s)
         | Some field \<Rightarrow>
             if el_name (el s field) \<noteq> ''addressLine2'' \<and> el_name (el s field) \<noteq> ''_gotcha''
             then (case validateField s (Some field) of
                     (ok, s') \<Rightarrow> (if \<not> ok then False else isValid, s'))
             else (isValid, s)))"

definition validateForm :: "state \<Rightarrow> bool \<times> state" where
  "validateForm s = fold validateForm_step (Object_values (formFields s)) (True, s)"

subsection \<open>The order record\<close>

text \<open>
  What the handler takes from outside while it runs: the clock (\<^verbatim>\<open>Date.now()\<close> and
  \<^verbatim>\<open>new Date().toISOString()\<close>), the random number rendered in base 36, and how the
  request ends.
\<close>

datatype fetch_result = Response bool | NetworkFailure

record env =
  date_now :: int
  date_iso :: string
  math_random36 :: string
  fetch_outcome :: fetch_result

record orderData =
  od_orderId :: string
  od_timestamp :: string
  od_firstName :: string
  od_lastName :: string
  od_email :: string
  od_phone :: string
  od_addressLine1 :: string
  od_addressLine2 :: string
  od_city :: string
  od_state :: string
  od_postalCode :: string
  od_country :: string
  od_privacyConsent :: bool

text \<open>\<^verbatim>\<open>field?.value.trim() || ''\<close> and \<^verbatim>\<open>field?.value || ''\<close>\<close>

definition trimmed_value :: "state \<Rightarrow> ref option \<Rightarrow> string" where
  "trimmed_value s fld = (case fld of None \<Rightarrow> [] | Some r \<Rightarrow> trim (el_value (el s r)))"

definition raw_value :: "state \<Rightarrow> ref option \<Rightarrow> string" where
  "raw_value s fld = (case fld of None \<Rightarrow> [] | Some r \<Rightarrow> el_value (el s r))"

definition getFormData :: "env \<Rightarrow> state \<Rightarrow> orderData" where
  "getFormData ev s =
     \<lparr>od_orderId = generateOrderId (date_now ev) (math_random36 ev),
      od_timestamp = date_iso ev,
      od_firstName = trimmed_value s (ff_firstName (formFields s)),
      od_lastName = trimmed_value s (ff_lastName (formFields s)),
      od_email = trimmed_value s (ff_email (formFields s)),
      od_phone = trimmed_value s (ff_phone (formFields s)),
      od_addressLine1 = trimmed_value s (ff_addressLine1 (formFields s)),
      od_addressLine2 = trimmed_value s (ff_addressLine2 (formFields s)),
      od_city = trimmed_value s (ff_city (formFields s)),
      od_state = trimmed_value s (ff_state (formFields s)),
      od_postalCode = trimmed_value s (ff_postalCode (formFields s)),
      od_country = raw_value s (ff_country (formFields s)),
      od_privacyConsent =
        (case ff_privacyConsent (formFields s) of None \<Rightarrow> False | Some r \<Rightarrow> el_checked (el s r))\<rparr>"

subsection \<open>Submission\<close>

datatype js_error = Error string | TypeError string

record submitResult =
  sr_success :: bool
  sr_orderId :: string

text \<open>
  \<^verbatim>\<open>submitFormData(formData)\<close>. A thrown error is the left summand. The request is the
  \<open>Fetch\<close> event; a response that is not ok and a request that fails both end in the
  \<^verbatim>\<open>catch\<close> block, which logs and throws again.
\<close>

definition submitFormData :: "env \<Rightarrow> state \<Rightarrow> orderData \<Rightarrow> (js_error + submitResult) \<times> state" where
  "submitFormData ev s formData =
     (let form = getElementById s ''shippingForm'';
          formAction = (case form of None \<Rightarrow> None | Some f \<Rightarrow> getAttribute s f ''action'')
      in case (form, formAction) of
           (Some f, Some action) \<Rightarrow>
             if action = [] \<or> str_includes action ''YOUR_FORM_ID'' then
               (Inl (Error ''FORMSPREE_NOT_CONFIGURED''),
                emit s (Alert ''Formspree not configured. Update YOUR_FORM_ID in form action attribute.''))
             else
               let formDataObj =
                     FormData_set
                       (FormData_set
                          (FormData_set (FormData_of s f) ''orderId'' (od_orderId formData))
                          ''timestamp'' (od_timestamp formData))
                       ''_replyto'' (od_email formData);
                   s1 = emit s (Fetch action ''POST'' formDataObj [(''Accept'', ''application/json'')])
               in (case fetch_outcome ev of
                     NetworkFailure \<Rightarrow>
                       (Inl (TypeError ''Failed to fetch''), emit s1 (ConsoleError ''Submission error:''))
                   | Response ok \<Rightarrow>
                       if \<not> ok then
                         (Inl (Error ''Form submission failed''),
                          emit s1 (ConsoleError ''Submission error:''))
                       else (Inr \<lparr>sr_success = True, sr_orderId = od_orderId formData\<rparr>, s1))
         | _ \<Rightarrow>
             (Inl (Error ''FORMSPREE_NOT_CONFIGURED''),
              emit s (Alert ''Formspree not configured. Update YOUR_FORM_ID in form action attribute.'')))"

definition openConfirmation :: "state \<Rightarrow> orderData \<Rightarrow> state" where
  "openConfirmation s orderData =
     (case getElementById s ''confirmationModal'' of
        None \<Rightarrow> s
      | Some confirmationModal \<Rightarrow>
          let orderIdDisplay = getElementById s ''orderIdDisplay'';
              emailDisplay = getElementById s ''emailDisplay'';
              s1 = (case orderIdDisplay of
                      None \<Rightarrow> s
                    | Some d \<Rightarrow> set_textContent s d (od_orderId orderData));
              s2 = (case emailDisplay of
                      None \<Rightarrow> s1
                    | Some d \<Rightarrow> set_textContent s1 d (od_email orderData));
              s3 = set_display s2 confirmationModal ''flex''
          in s3\<lparr>body_overflow := ''hidden''\<rparr>)"

definition setSubmitButtonLoading :: "state \<Rightarrow> bool \<Rightarrow> state" where
  "setSubmitButtonLoading s loading =
     (case getElementById s ''submitOrderBtn'' of
        None \<Rightarrow> s
      | Some submitBtn \<Rightarrow>
          let btnText = querySelector_within s submitBtn ''btn-text'';
              btnSpinner = querySelector_within s submitBtn ''btn-spinner''
          in if loading then
               let s1 = set_disabled s submitBtn True;
                   s2 = (case btnText of None \<Rightarrow> s1 | Some t \<Rightarrow> set_display s1 t ''none'')
               in (case btnSpinner of None \<Rightarrow> s2 | Some p \<Rightarrow> set_display s2 p ''flex'')
             else
               let s1 = set_disabled s submitBtn False;
                   s2 = (case btnText of None \<Rightarrow> s1 | Some t \<Rightarrow> set_display s1 t ''inline'')
               in (case btnSpinner of None \<Rightarrow> s2 | Some p \<Rightarrow> set_display s2 p ''none''))"

definition resetForm_step :: "ref option \<Rightarrow> state \<Rightarrow> state" where
  "resetForm_step fld s =
     (case fld of
        None \<Rightarrow> s
      | Some field \<Rightarrow>
          let s1 = classList_remove s field ''error'';
              s2 = setAttribute s1 field ''aria-invalid'' ''false''
          in (case getElementById s2 (el_name (el s2 field) @ ''Error'') of
                None \<Rightarrow> s2
              | Some e \<Rightarrow> set_textContent s2 e []))"

definition resetForm :: "state \<Rightarrow> state" where
  "resetForm s =
     (case getElementById s ''shippingForm'' of
        None \<Rightarrow> s
      | Some form \<Rightarrow> fold resetForm_step (Object_values (formFields s)) (form_reset s form))"

text \<open>
  \<^verbatim>\<open>init\<close> of the form module caches the fields. The listeners it attaches (\<^verbatim>\<open>submit\<close>,
  \<^verbatim>\<open>blur\<close>, \<^verbatim>\<open>input\<close>) are not state of the model: a handler is a function that the
  scenario applies. Loading the script defines \<^verbatim>\<open>window.formModule\<close> and runs \<^verbatim>\<open>init\<close>.
\<close>

definition form_init :: "state \<Rightarrow> state" where
  "form_init s =
     s\<lparr>formFields :=
         \<lparr>ff_firstName = getElementById s ''firstName'',
          ff_lastName = getElementById s ''lastName'',
          ff_email = getElementById s ''email'',
          ff_phone = getElementById s ''phone'',
          ff_addressLine1 = getElementById s ''addressLine1'',
          ff_addressLine2 = getElementById s ''addressLine2'',
          ff_city = getElementById s ''city'',
          ff_state = getElementById s ''state'',
          ff_postalCode = getElementById s ''postalCode'',
          ff_country = getElementById s ''country'',
          ff_privacyConsent = getElementById s ''privacyConsent'',
          ff_gotcha = querySelector_name s ''_gotcha''\<rparr>\<rparr>"

definition load_form_module :: "state \<Rightarrow> state" where
  "load_form_module s = form_init (s\<lparr>has_formModule := True\<rparr>)"

section \<open>The UI module\<close>

text \<open>
  \<^verbatim>\<open>openOrderForm\<close>. The focus trap it installs is a \<^verbatim>\<open>keydown\<close> listener for the Tab
  key and is left out; \<^verbatim>\<open>modal.dataset.cleanupFn = 'set'\<close> writes the attribute
  \<^verbatim>\<open>data-cleanup-fn\<close>.
\<close>

definition openOrderForm :: "state \<Rightarrow> state" where
  "openOrderForm s =
     (case getElementById s ''orderModal'' of
        None \<Rightarrow> s
      | Some modal \<Rightarrow>
          let firstNameField = getElementById s ''firstName'';
              s1 = s\<lparr>previousFocus := Some (activeElement s), activeModal := Some modal\<rparr>;
              s2 = set_display s1 modal ''flex'';
              s3 = s2\<lparr>body_overflow := ''hidden''\<rparr>;
              s4 = setAttribute s3 modal ''data-cleanup-fn'' ''set''
          in setTimeout s4 (FocusField firstNameField) 100)"

definition closeOrderForm :: "state \<Rightarrow> state" where
  "closeOrderForm s =
     (case getElementById s ''orderModal'' of
        None \<Rightarrow> s
      | Some modal \<Rightarrow>
          let s1 = set_display s modal ''none'';
              s2 = s1\<lparr>body_overflow := [], activeModal := None\<rparr>;
              wasSubmitted = (getAttribute s2 modal ''data-submitted'' = Some ''true'');
              s3 = (if wasSubmitted \<and> has_formModule s2
                    then setAttribute (resetForm s2) modal ''data-submitted'' ''false''
                    else s2)
          in (case previousFocus s3 of
                None \<Rightarrow> s3
              | Some p \<Rightarrow> (focus s3 p)\<lparr>previousFocus := None\<rparr>))"

definition closeConfirmation :: "state \<Rightarrow> state" where
  "closeConfirmation s =
     (case getElementById s ''confirmationModal'' of
        None \<Rightarrow> s
      | Some modal \<Rightarrow>
          let s1 = set_display s modal ''none'';
              s2 = s1\<lparr>body_overflow := [], activeModal := None\<rparr>
          in (case previousFocus s2 of
                None \<Rightarrow> s2
              | Some p \<Rightarrow> (focus s2 p)\<lparr>previousFocus := None\<rparr>))"

text \<open>\<^verbatim>\<open>handleEscape(e)\<close>, with \<open>key\<close> for \<^verbatim>\<open>e.key\<close>.\<close>

definition shown :: "state \<Rightarrow> ref option \<Rightarrow> bool" where
  "shown s m = (case m of None \<Rightarrow> False | Some r \<Rightarrow> el_display (el s r) = ''flex'')"

definition handleEscape :: "state \<Rightarrow> string \<Rightarrow> state" where
  "handleEscape s key =
     (if key = ''Escape'' then
        let orderModal = getElementById s ''orderModal'';
            confirmationModal = getElementById s ''confirmationModal''
        in if shown s orderModal then closeOrderForm s
           else if shown s confirmationModal then closeConfirmation s
           else s
      else s)"

text \<open>Loading the script defines the globals \<^verbatim>\<open>window.openOrderForm\<close>,
  \<^verbatim>\<open>window.closeOrderForm\<close> and \<^verbatim>\<open>window.closeConfirmation\<close>; \<^verbatim>\<open>init\<close> of the UI module
  only attaches listeners.\<close>

definition load_ui_module :: "state \<Rightarrow> state" where
  "load_ui_module s = s\<lparr>has_closeOrderForm := True\<rparr>"

text \<open>A pending timer fires: its callback runs.\<close>

definition run_task :: "state \<Rightarrow> task \<Rightarrow> state" where
  "run_task s t =
     (case t of
        FocusField None \<Rightarrow> s
      | FocusField (Some r) \<Rightarrow> focus s (Element r)
      | UnlockFullPdf \<Rightarrow> s)"

section \<open>The submit handler\<close>

text \<open>
  \<^verbatim>\<open>handleSubmit(e)\<close>, from the event to the end of the \<^verbatim>\<open>finally\<close> block, with the
  awaited request answered by \<open>fetch_outcome\<close>. Calling \<^verbatim>\<open>window.closeOrderForm\<close> when the
  UI module has not defined it throws a TypeError inside the \<^verbatim>\<open>try\<close> block.
\<close>

definition spam_detected :: "state \<Rightarrow> bool" where
  "spam_detected s =
     (case ff_gotcha (formFields s) of
        None \<Rightarrow> True
      | Some g \<Rightarrow> trim (el_value (el s g)) \<noteq> [])"

definition on_success :: "state \<Rightarrow> orderData \<Rightarrow> js_error option \<times> state" where
  "on_success s formData =
     (let orderModal = getElementById s ''orderModal'';
          s1 = (case orderModal of
                  None \<Rightarrow> s
                | Some m \<Rightarrow> setAttribute s m ''data-submitted'' ''true'')
      in if \<not> has_closeOrderForm s1
         then (Some (TypeError ''window.closeOrderForm is not a function''), s1)
         else
           let s2 = closeOrderForm s1;
               s3 = openConfirmation s2 formData
           in (None, if has_pdfPreviewModule s3 then setTimeout s3 UnlockFullPdf 2000 else s3))"

definition failure_alert :: string where
  "failure_alert = ''Order submission failed. Please try again or contact us directly.''"

definition handleSubmit :: "env \<Rightarrow> state \<Rightarrow> state" where
  "handleSubmit ev s =
     (let s0 = emit s PreventDefault
      in if spam_detected s0 then emit s0 (ConsoleWarn ''Spam detected'')
         else
           (case validateForm s0 of
              (valid, s1) \<Rightarrow>
                if \<not> valid then
                  (case querySelector_class s1 ''error'' of
                     None \<Rightarrow> s1
                   | Some firstError \<Rightarrow> focus s1 (Element firstError))
                else
                  let formData = getFormData ev s1;
                      s2 = setSubmitButtonLoading s1 True;
                      s3 = (case submitFormData ev s2 formData of
                              (Inl err, s') \<Rightarrow> emit s' (Alert failure_alert)
                            | (Inr res, s') \<Rightarrow>
                                (case on_success s' formData of
                                   (Some err, s'') \<Rightarrow> emit s'' (Alert failure_alert)
                                 | (None, s'') \<Rightarrow> s''))
                  in setSubmitButtonLoading s3 False))"

section \<open>The earlier handler\<close>

text \<open>
  \<^verbatim>\<open>ramadan-journal/assets/js/form-handler.js\<close> is an earlier handler for the same form,
  with a phone pattern of its own,
  \<^verbatim>\<open>/^[\+]?[(]?[0-9]{1,4}[)]?[-\s\.]?[(]?[0-9]{1,4}[)]?[-\s\.]?[0-9]{1,9}$/\<close>, and a
  \<^verbatim>\<open>validateField(fieldName)\<close> that looks the field up in its cache. In the model the
  cached element is an argument. The value under test is the checkedness of a checkbox
  and the trimmed value of any other field; a checked box reads \<^verbatim>\<open>true\<close> where a rule
  converts it to a string, an unchecked one is falsy like the empty string.
\<close>

definition phone_separator :: "char \<Rightarrow> bool" where
  "phone_separator c = (c = CHR ''-'' \<or> is_space c \<or> c = CHR ''.'')"

definition PATTERNS_phone :: "regex_item list" where
  "PATTERNS_phone =
     [((\<lambda>c. c = CHR ''+''), 0, Some 1), ((\<lambda>c. c = CHR ''(''), 0, Some 1),
      (is_digit, 1, Some 4), ((\<lambda>c. c = CHR '')''), 0, Some 1), (phone_separator, 0, Some 1),
      ((\<lambda>c. c = CHR ''(''), 0, Some 1), (is_digit, 1, Some 4),
      ((\<lambda>c. c = CHR '')''), 0, Some 1), (phone_separator, 0, Some 1),
      (is_digit, 1, Some 9)]"

definition legacy_errorMessage :: "string \<Rightarrow> string \<Rightarrow> string" where
  "legacy_errorMessage fieldName val =
     (if val = [] then ''This field is required''
      else if fieldName = ''email'' then
        (if \<not> regex_test patterns_email val then ''Please enter a valid email address'' else [])
      else if fieldName = ''phone'' then
        (if \<not> regex_test PATTERNS_phone val then ''Please enter a valid phone number'' else [])
      else if fieldName = ''firstName'' \<or> fieldName = ''lastName'' then
        (if \<not> regex_test patterns_name val
         then ''Please enter a valid name (2-50 characters, letters only)'' else [])
      else if fieldName = ''postalCode'' then
        (if \<not> regex_test patterns_postalCode val then ''Please enter a valid postal code'' else [])
      else if fieldName = ''privacyConsent'' then
        (if val = [] then ''You must consent to data usage to proceed'' else [])
      else [])"

definition removeAttribute :: "state \<Rightarrow> ref \<Rightarrow> string \<Rightarrow> state" where
  "removeAttribute s r k = upd s r (\<lambda>e. e\<lparr>el_attrs := (el_attrs e)(k := None)\<rparr>)"

definition showFieldError :: "state \<Rightarrow> string \<Rightarrow> ref \<Rightarrow> string \<Rightarrow> state" where
  "showFieldError s fieldName field message =
     (let s1 = classList_add s field ''is-invalid'';
          s2 = (case getElementById s1 (fieldName @ ''Error'') of
                  None \<Rightarrow> s1
                | Some e \<Rightarrow> set_display (set_textContent s1 e message) e ''block'')
      in setAttribute s2 field ''aria-invalid'' ''true'')"

definition clearFieldError :: "state \<Rightarrow> string \<Rightarrow> ref \<Rightarrow> state" where
  "clearFieldError s fieldName field =
     (let s1 = classList_remove s field ''is-invalid'';
          s2 = (case getElementById s1 (fieldName @ ''Error'') of
                  None \<Rightarrow> s1
                | Some e \<Rightarrow> set_display (set_textContent s1 e []) e ''none'')
      in removeAttribute s2 field ''aria-invalid'')"

definition legacy_validateField :: "state \<Rightarrow> string \<Rightarrow> ref option \<Rightarrow> bool \<times> state" where
  "legacy_validateField s fieldName fld =
     (case fld of
        None \<Rightarrow> (True, s)
      | Some field \<Rightarrow>
          let val = (if el_type (el s field) = ''checkbox''
                     then (if el_checked (el s field) then ''true'' else [])
                     else trim (el_value (el s field)));
              errorMessage = legacy_errorMessage fieldName val
          in if errorMessage \<noteq> [] then (False, showFieldError s fieldName field errorMessage)
             else (True, clearFieldError s fieldName field))"

section \<open>Notions used in the statements\<close>

text \<open>
  \<open>keeps P s s'\<close>: the documents of \<open>s\<close> and \<open>s'\<close> have the same length and every
  element has the same \<open>P\<close> in both. \<open>rest s\<close> is the state without its document.
\<close>

definition keeps :: "(element \<Rightarrow> 'a) \<Rightarrow> state \<Rightarrow> state \<Rightarrow> bool" where
  "keeps P s s' = (length (doc s') = length (doc s) \<and> (\<forall>k. P (el s' k) = P (el s k)))"

definition rest :: "state \<Rightarrow> state" where
  "rest s = s\<lparr>doc := []\<rparr>"

text \<open>
  The verdict of \<^verbatim>\<open>validateField\<close> as a function of the element alone: the decoy must be
  empty once trimmed, any other field must pass the chain of rules on its trimmed value.
\<close>

definition field_ok :: "element \<Rightarrow> bool" where
  "field_ok e =
     (if el_name e = ''_gotcha'' then trim (el_value e) = []
      else fst (field_rules (el_name e) (trim (el_value e)) (el_required e) (el_type e) (el_checked e)))"

text \<open>
  What \<^verbatim>\<open>validateForm\<close> asks of one cached reference: nothing of \<^verbatim>\<open>null\<close> and of the
  fields named \<^verbatim>\<open>addressLine2\<close> and \<^verbatim>\<open>_gotcha\<close>, the verdict of \<^verbatim>\<open>validateField\<close> of any
  other.
\<close>

definition passes :: "state \<Rightarrow> ref option \<Rightarrow> bool" where
  "passes s fld =
     (case fld of
        None \<Rightarrow> True
      | Some r \<Rightarrow>
          if el_name (el s r) \<noteq> ''addressLine2'' \<and> el_name (el s r) \<noteq> ''_gotcha''
          then field_ok (el s r) else True)"

text \<open>
  A property of elements that the marks of validation do not touch: adding or removing
  the class \<^verbatim>\<open>error\<close>, setting \<^verbatim>\<open>aria-invalid\<close>, writing a text content. And one that
  the loading state of the submit button (disabling, showing and hiding) does not touch.
\<close>

definition mark_free :: "(element \<Rightarrow> 'a) \<Rightarrow> bool" where
  "mark_free P =
     ((\<forall>e. P (e\<lparr>el_classList := removeAll ''error'' (el_classList e)\<rparr>) = P e) \<and>
      (\<forall>e. P (e\<lparr>el_classList := el_classList e @ [''error'']\<rparr>) = P e) \<and>
      (\<forall>e v. P (e\<lparr>el_attrs := (el_attrs e)(''aria-invalid'' \<mapsto> v)\<rparr>) = P e) \<and>
      (\<forall>e t. P (e\<lparr>el_textContent := t\<rparr>) = P e))"

definition loading_free :: "(element \<Rightarrow> 'a) \<Rightarrow> bool" where
  "loading_free P =
     ((\<forall>e d. P (e\<lparr>el_display := d\<rparr>) = P e) \<and> (\<forall>e b. P (e\<lparr>el_disabled := b\<rparr>) = P e))"

text \<open>
  The part of an element that no operation of the two modules writes: its id, name,
  type, defaults, requiredness and position in the tree.
\<close>

definition fixed :: "element \<Rightarrow> string \<times> string \<times> string \<times> string \<times> bool \<times> bool \<times> ref list" where
  "fixed e =
     (el_id e, el_name e, el_type e, el_defaultValue e, el_defaultChecked e, el_required e,
      el_ancestors e)"

text \<open>A property of elements that \<^verbatim>\<open>form.reset()\<close> does not touch.\<close>

definition reset_free :: "(element \<Rightarrow> 'a) \<Rightarrow> bool" where
  "reset_free P = (\<forall>e. P (reset_control e) = P e)"

text \<open>A run from \<open>s\<close> to \<open>s'\<close> has sent a request: a \<open>Fetch\<close> is among its events.\<close>

definition is_Fetch :: "event \<Rightarrow> bool" where
  "is_Fetch e = (case e of Fetch url m body hs \<Rightarrow> True | _ \<Rightarrow> False)"

definition transmits :: "state \<Rightarrow> state \<Rightarrow> bool" where
  "transmits s s' = list_ex is_Fetch (emitted s s')"

text \<open>The bodies of the requests among some events.\<close>

definition bodies :: "event list \<Rightarrow> (string \<times> string) list list" where
  "bodies evs = concat (map (\<lambda>e. case e of Fetch url m body hs \<Rightarrow> [body] | _ \<Rightarrow> []) evs)"

text \<open>The form has an \<^verbatim>\<open>action\<close> that is not empty and not the placeholder.\<close>

definition configured :: "state \<Rightarrow> bool" where
  "configured s =
     (case getElementById s ''shippingForm'' of
        None \<Rightarrow> False
      | Some f \<Rightarrow>
          (case getAttribute s f ''action'' of
             None \<Rightarrow> False
           | Some a \<Rightarrow> a \<noteq> [] \<and> \<not> str_includes a ''YOUR_FORM_ID''))"

text \<open>What the handler leaves of a submission it takes for spam: two events, nothing else.\<close>

definition spam_abort :: "state \<Rightarrow> state" where
  "spam_abort s = s\<lparr>trace := trace s @ [PreventDefault, ConsoleWarn ''Spam detected'']\<rparr>"

definition config_alert :: string where
  "config_alert = ''Formspree not configured. Update YOUR_FORM_ID in form action attribute.''"

text \<open>
  The fields the form requires, by name and by the key under which \<^verbatim>\<open>formFields\<close> caches
  them. \<open>required_not_exempt\<close>: no element cached under such a key bears one of the two
  names that \<^verbatim>\<open>validateForm\<close> skips.
\<close>

definition required_names :: "string list" where
  "required_names =
     [''firstName'', ''lastName'', ''email'', ''phone'', ''addressLine1'', ''city'', ''state'',
      ''postalCode'', ''country'', ''privacyConsent'']"

definition required_fields :: "formFields \<Rightarrow> ref option list" where
  "required_fields ff =
     [ff_firstName ff, ff_lastName ff, ff_email ff, ff_phone ff, ff_addressLine1 ff,
      ff_city ff, ff_state ff, ff_postalCode ff, ff_country ff, ff_privacyConsent ff]"

definition not_exempt :: "state \<Rightarrow> ref option \<Rightarrow> bool" where
  "not_exempt s fld =
     (case fld of
        None \<Rightarrow> True
      | Some r \<Rightarrow> el_name (el s r) \<noteq> ''addressLine2'' \<and> el_name (el s r) \<noteq> ''_gotcha'')"

definition required_not_exempt :: "state \<Rightarrow> bool" where
  "required_not_exempt s = list_all (not_exempt s) (required_fields (formFields s))"

definition named_required_ok :: "state \<Rightarrow> ref option \<Rightarrow> bool" where
  "named_required_ok s fld =
     (case fld of
        None \<Rightarrow> True
      | Some r \<Rightarrow>
          if el_name (el s r) \<in> set required_names then fst (validateField s (Some r)) else True)"

definition decoy_empty :: "state \<Rightarrow> bool" where
  "decoy_empty s =
     (case ff_gotcha (formFields s) of
        None \<Rightarrow> False
      | Some g \<Rightarrow> trim (el_value (el s g)) = [])"

text \<open>
  \<open>loaded s\<close> is the page at the moment the request leaves: validation has passed over
  it and the submit button is in its loading state. \<open>order_request ev s\<close> is the request
  that a valid submission sends from \<open>s\<close>, as a list that is empty when the form has no
  action.
\<close>

definition loaded :: "state \<Rightarrow> state" where
  "loaded s = setSubmitButtonLoading (snd (validateForm (emit s PreventDefault))) True"

definition order_body :: "env \<Rightarrow> state \<Rightarrow> ref \<Rightarrow> (string \<times> string) list" where
  "order_body ev s f =
     FormData_set
       (FormData_set
          (FormData_set (FormData_of (loaded s) f) ''orderId'' (od_orderId (getFormData ev s)))
          ''timestamp'' (od_timestamp (getFormData ev s)))
       ''_replyto'' (od_email (getFormData ev s))"

definition order_request :: "env \<Rightarrow> state \<Rightarrow> event list" where
  "order_request ev s =
     (case getElementById s ''shippingForm'' of
        None \<Rightarrow> []
      | Some f \<Rightarrow>
          (case getAttribute s f ''action'' of
             None \<Rightarrow> []
           | Some a \<Rightarrow> [Fetch a ''POST'' (order_body ev s f) [(''Accept'', ''application/json'')]]))"

text \<open>The element \<open>k\<close> does not lie inside the submit button.\<close>

definition outside_button :: "state \<Rightarrow> ref \<Rightarrow> bool" where
  "outside_button s k =
     (case getElementById s ''submitOrderBtn'' of
        None \<Rightarrow> True
      | Some b \<Rightarrow> b \<notin> set (el_ancestors (el s k)))"


text \<open>
  The control \<open>k\<close> of the form \<open>f\<close> contributes an entry of its own to the form data:
  it is an element of the page inside the form, it would be submitted, it is not the
  submit button (which is disabled while the request is prepared), and its name is
  none of the three that \<^verbatim>\<open>submitFormData\<close> sets afterwards.
\<close>

definition own_entry :: "state \<Rightarrow> ref \<Rightarrow> ref \<Rightarrow> bool" where
  "own_entry s f k =
     (k < length (doc s) \<and> f \<in> set (el_ancestors (el s k)) \<and> submittable (el s k) \<and>
      getElementById s ''submitOrderBtn'' \<noteq> Some k \<and>
      el_name (el s k) \<notin> set [''orderId'', ''timestamp'', ''_replyto''])"

section \<open>Sample pages\<close>

text \<open>
  Concrete pages on which the statements below are instantiated. \<open>node\<close> is an element
  that is no form control, \<open>control\<close> is a form control whose id is its name, and
  \<open>page\<close> is a freshly loaded page around a document.
\<close>

definition node :: "string \<Rightarrow> string list \<Rightarrow> ref list \<Rightarrow> element" where
  "node i cs anc =
     \<lparr>el_id = i, el_name = [], el_type = [], el_value = [], el_defaultValue = [],
      el_checked = False, el_defaultChecked = False, el_required = False, el_disabled = False,
      el_classList = cs, el_attrs = Map.empty, el_textContent = [], el_display = [],
      el_ancestors = anc\<rparr>"

definition control :: "string \<Rightarrow> string \<Rightarrow> string \<Rightarrow> bool \<Rightarrow> ref list \<Rightarrow> element" where
  "control n t v req anc =
     (node n [] anc)\<lparr>el_name := n, el_type := t, el_value := v, el_required := req\<rparr>"

definition blank_fields :: formFields where
  "blank_fields = \<lparr>ff_firstName = None, ff_lastName = None, ff_email = None, ff_phone = None,
     ff_addressLine1 = None, ff_addressLine2 = None, ff_city = None, ff_state = None,
     ff_postalCode = None, ff_country = None, ff_privacyConsent = None, ff_gotcha = None\<rparr>"

definition page :: "element list \<Rightarrow> state" where
  "page d =
     \<lparr>doc = d, body_overflow = [], activeElement = Body, formFields = blank_fields,
      activeModal = None, previousFocus = None, has_closeOrderForm = False,
      has_formModule = False, has_pdfPreviewModule = False, timers = [], trace = []\<rparr>"

definition phone_page :: "string \<Rightarrow> state" where
  "phone_page v = page [control ''phone'' ''tel'' v True []]"

text \<open>A page with a single, valid field and no decoy element.\<close>

definition bare_page :: state where
  "bare_page = page [control ''firstName'' ''text'' ''Ali'' True []]"

text \<open>
  The order page: the button that opens the form, the order modal with the form, its
  fields, one error slot and the submit button, and the confirmation modal. The
  parameters are the form's \<^verbatim>\<open>action\<close>, the first name and the decoy's value as typed.
  \<open>order_page\<close> is the page once both modules are loaded.
\<close>

definition order_doc :: "string \<Rightarrow> string \<Rightarrow> string \<Rightarrow> element list" where
  "order_doc action first gotcha =
    [(node ''openBtn'' [] [])\<lparr>el_type := ''button''\<rparr>,
     (node ''orderModal'' [] [])\<lparr>el_display := ''none''\<rparr>,
     (node ''shippingForm'' [] [1])\<lparr>el_attrs := [''action'' \<mapsto> action]\<rparr>,
     control ''firstName'' ''text'' first True [1, 2],
     node ''firstNameError'' [] [1, 2],
     control ''lastName'' ''text'' ''Khan'' True [1, 2],
     control ''email'' ''text'' ''ali@example.com'' True [1, 2],
     control ''phone'' ''tel'' ''+92-300-1234567'' True [1, 2],
     control ''addressLine1'' ''text'' ''12 Mall Road'' True [1, 2],
     control ''addressLine2'' ''text'' [] False [1, 2],
     control ''city'' ''text'' ''Lahore'' True [1, 2],
     control ''state'' ''text'' ''Punjab'' True [1, 2],
     control ''postalCode'' ''text'' ''54000'' True [1, 2],
     control ''country'' ''select-one'' ''Pakistan'' True [1, 2],
     (control ''privacyConsent'' ''checkbox'' ''on'' True [1, 2])\<lparr>el_checked := True\<rparr>,
     (control ''_gotcha'' ''text'' gotcha False [1, 2])\<lparr>el_id := []\<rparr>,
     (node ''submitOrderBtn'' [] [1, 2])\<lparr>el_type := ''submit''\<rparr>,
     node [] [''btn-text''] [1, 2, 16],
     (node [] [''btn-spinner''] [1, 2, 16])\<lparr>el_display := ''none''\<rparr>,
     (node ''confirmationModal'' [] [])\<lparr>el_display := ''none''\<rparr>,
     node ''orderIdDisplay'' [] [19],
     node ''emailDisplay'' [] [19],
     (node ''closeConfirmationBtn'' [] [19])\<lparr>el_type := ''button''\<rparr>]"

definition order_fields :: formFields where
  "order_fields =
     \<lparr>ff_firstName = Some 3, ff_lastName = Some 5, ff_email = Some 6, ff_phone = Some 7,
      ff_addressLine1 = Some 8, ff_addressLine2 = Some 9, ff_city = Some 10, ff_state = Some 11,
      ff_postalCode = Some 12, ff_country = Some 13, ff_privacyConsent = Some 14,
      ff_gotcha = Some 15\<rparr>"

definition order_page :: "string \<Rightarrow> string \<Rightarrow> string \<Rightarrow> state" where
  "order_page action first gotcha =
     (page (order_doc action first gotcha))
       \<lparr>formFields := order_fields, has_closeOrderForm := True, has_formModule := True\<rparr>"

definition sample_env :: "fetch_result \<Rightarrow> env" where
  "sample_env outcome =
     \<lparr>date_now = 1700000000000, date_iso = ''2023-11-14T22:13:20.000Z'',
      math_random36 = ''0.4fzyo82mvyr'', fetch_outcome = outcome\<rparr>"

text \<open>
  The order page with the focus on the opening button and the order form then opened.
\<close>

definition opened_page :: "string \<Rightarrow> string \<Rightarrow> string \<Rightarrow> state" where
  "opened_page action first gotcha =
     openOrderForm ((order_page action first gotcha)\<lparr>activeElement := Element 0\<rparr>)"

text \<open>
  The opened order page after the customer has typed the email address with a space on
  either side.
\<close>

definition padded_email_page :: state where
  "padded_email_page =
     upd (opened_page ''https://formspree.io/f/xabc1234'' ''Ali'' []) 6
       (\<lambda>e. e\<lparr>el_value := '' ali@example.com ''\<rparr>)"

section \<open>Basic facts\<close>

lemma nth_beyond: "length xs = length ys \<Longrightarrow> length xs \<le> n \<Longrightarrow> xs ! n = ys ! n"
proof (induction xs arbitrary: ys n)
  case Nil
  then show ?case by simp
next
  case (Cons x xs)
  then obtain y ys' where ys: "ys = y # ys'" by (cases ys) auto
  from Cons.prems obtain m where n: "n = Suc m" by (cases n) auto
  with Cons ys show ?case by simp
qed

lemma keeps_refl [simp]: "keeps P s s"
  by (simp add: keeps_def)

lemma keeps_trans: "keeps P s s1 \<Longrightarrow> keeps P s1 s2 \<Longrightarrow> keeps P s s2"
  by (simp add: keeps_def)

lemma keeps_doc_eq: "doc s' = doc s \<Longrightarrow> keeps P s s'"
  by (simp add: keeps_def el_def)

lemma el_upd: "el (upd s r f) k = (if k = r \<and> r < length (doc s) then f (el s r) else el s k)"
  by (cases "r < length (doc s)") (auto simp add: el_def upd_def nth_list_update list_update_beyond)

lemma keeps_upd: "(\<And>e. P (f e) = P e) \<Longrightarrow> keeps P s (upd s r f)"
  by (simp add: keeps_def el_upd) (simp add: upd_def)

lemma rest_upd [simp]: "rest (upd s r f) = rest s"
  by (simp add: rest_def upd_def)

lemma rest_sel:
  "trace s = trace (rest s)" "formFields s = formFields (rest s)" "activeElement s = activeElement (rest s)"
  "previousFocus s = previousFocus (rest s)" "activeModal s = activeModal (rest s)"
  "body_overflow s = body_overflow (rest s)" "timers s = timers (rest s)"
  "has_closeOrderForm s = has_closeOrderForm (rest s)" "has_formModule s = has_formModule (rest s)"
  "has_pdfPreviewModule s = has_pdfPreviewModule (rest s)"
  by (simp_all add: rest_def)

lemma first_index_cong:
  "length xs = length ys \<Longrightarrow> (\<And>k. k < length xs \<Longrightarrow> P (xs ! k) = Q (ys ! k)) \<Longrightarrow>
   first_index P xs = first_index Q ys"
proof (induction xs arbitrary: ys)
  case Nil
  then show ?case by simp
next
  case (Cons x xs)
  then obtain y ys' where ys: "ys = y # ys'" by (cases ys) auto
  have h: "P x = Q y" using Cons.prems(2)[of 0] ys by simp
  have t: "first_index P xs = first_index Q ys'"
  proof (rule Cons.IH)
    show "length xs = length ys'" using Cons.prems(1) ys by simp
  next
    fix k assume "k < length xs"
    then show "P (xs ! k) = Q (ys' ! k)" using Cons.prems(2)[of "Suc k"] ys by simp
  qed
  show ?case using h t ys by simp
qed

lemma first_index_Some:
  "first_index P xs = Some i \<Longrightarrow> i < length xs \<and> P (xs ! i)"
proof (induction xs arbitrary: i)
  case Nil
  then show ?case by simp
next
  case (Cons x xs)
  then show ?case by (auto split: if_splits)
qed

lemma keeps_getElementById: "keeps el_id s s' \<Longrightarrow> getElementById s' i = getElementById s i"
  unfolding getElementById_def keeps_def el_def
  by (rule first_index_cong) auto

lemma getElementById_Some:
  "getElementById s i = Some r \<Longrightarrow> r < length (doc s) \<and> el_id (el s r) = i"
  unfolding getElementById_def el_def by (drule first_index_Some) simp

lemmas api_defs = classList_remove_def classList_add_def setAttribute_def set_textContent_def
  set_display_def set_disabled_def

lemma validateField_verdict: "fst (validateField s (Some r)) = field_ok (el s r)"
  by (simp add: validateField_def field_ok_def Let_def api_defs el_upd split: option.splits prod.splits)

section \<open>Phone validation\<close>

lemma regex_single:
  "regex_test [(P, lo, Some hi)] u = (lo \<le> length u \<and> length u \<le> hi \<and> list_all P u)"
  by (auto simp add: list_ex_iff)

lemma regex_optional:
  "regex_test ((Q, 0, Some 1) # items) v =
     (regex_test items v \<or> (v \<noteq> [] \<and> Q (hd v) \<and> regex_test items (tl v)))"
proof (cases v)
  case Nil
  then show ?thesis by simp
next
  case (Cons c w)
  have "[0 ..< Suc (min 1 (length v))] = [0, 1]"
    using Cons by (simp add: upt_rec[of 0] upt_rec[of "Suc 0"] del: upt_Suc)
  then show ?thesis using Cons by simp
qed

lemma patterns_phone_iff:
  "regex_test patterns_phone v =
     (let body = (if take 1 v = ''+'' then drop 1 v else v)
      in 10 \<le> length body \<and> length body \<le> 20 \<and> list_all phone_char body)"
proof -
  have plus: "\<not> phone_char (CHR ''+'')"
    by (simp add: phone_char_def is_digit_def is_space_def in_range_def)
  have split: "regex_test patterns_phone v =
      ((10 \<le> length v \<and> length v \<le> 20 \<and> list_all phone_char v) \<or>
       (v \<noteq> [] \<and> hd v = CHR ''+'' \<and>
        10 \<le> length (tl v) \<and> length (tl v) \<le> 20 \<and> list_all phone_char (tl v)))"
    unfolding patterns_phone_def regex_optional regex_single by simp
  show ?thesis
  proof (cases v)
    case Nil
    then show ?thesis unfolding split by simp
  next
    case (Cons c w)
    then show ?thesis unfolding split using plus by (auto simp add: Let_def)
  qed
qed

text \<open>
  Phone validation in the form module: for a field named \<^verbatim>\<open>phone\<close>, \<^verbatim>\<open>validateField\<close>
  returns true on \<^verbatim>\<open>+92-300-1234567\<close> (the field not being a checkbox) and false on
  \<^verbatim>\<open>12345\<close>. Its pattern accepts exactly an optional leading \<^verbatim>\<open>+\<close> followed by 10 to
  20 characters out of digits, white space, hyphens and parentheses.
\<close>

lemma phone_validation_examples:
  assumes "el_name (el s r) = ''phone''"
  shows "(el_value (el s r) = ''+92-300-1234567'' \<and> el_type (el s r) \<noteq> ''checkbox''
            \<longrightarrow> fst (validateField s (Some r))) \<and>
         (el_value (el s r) = ''12345'' \<longrightarrow> \<not> fst (validateField s (Some r))) \<and>
         regex_test patterns_phone v =
           (let body = (if take 1 v = ''+'' then drop 1 v else v)
            in 10 \<le> length body \<and> length body \<le> 20 \<and> list_all phone_char body)"
proof -
  have acc: "regex_test patterns_phone ''+92-300-1234567''"
    by (simp add: patterns_phone_iff phone_char_def is_digit_def in_range_def)
  have rej: "\<not> regex_test patterns_phone ''12345''"
    by (simp add: patterns_phone_iff)
  have t1: "trim ''+92-300-1234567'' = ''+92-300-1234567''"
    by (simp add: trim_def is_space_def)
  have t2: "trim ''12345'' = ''12345''"
    by (simp add: trim_def is_space_def)
  show ?thesis
    using assms acc rej t1 t2
    by (simp add: validateField_verdict field_ok_def field_rules_def patterns_phone_iff)
qed

lemma phone_validation_examples_sample:
  "fst (validateField (phone_page ''+92-300-1234567'') (Some 0)) \<and>
   \<not> fst (validateField (phone_page ''12345'') (Some 0))"
  using phone_validation_examples[of "phone_page ''+92-300-1234567''" 0]
        phone_validation_examples[of "phone_page ''12345''" 0]
  by (simp add: phone_page_def page_def control_def node_def el_def)

subsection \<open>The earlier handler\<close>

lemma legacy_phone_short: "regex_test PATTERNS_phone ''12345''"
  by code_simp

lemma legacy_phone_sample: "regex_test PATTERNS_phone ''+92-300-1234567''"
  by code_simp

lemma legacy_phone_uk: "\<not> regex_test PATTERNS_phone ''+44-20-7946-0958''"
  by code_simp

text \<open>
  Claim C8. Phone validation accepts \<^verbatim>\<open>+92-300-1234567\<close> and rejects \<^verbatim>\<open>12345\<close>. The form
  module does, as shown above. The earlier handler does not: its pattern asks for three
  runs of digits with optional separators, \<^verbatim>\<open>12345\<close> splits into such runs, and its
  \<^verbatim>\<open>validateField\<close> returns true on a phone field that holds \<^verbatim>\<open>12345\<close>.
\<close>

theorem legacy_phone_accepts_short:
  assumes "el_type (el s r) \<noteq> ''checkbox''" "el_value (el s r) = ''12345''"
  shows "regex_test PATTERNS_phone ''12345'' \<and>
         legacy_errorMessage ''phone'' ''12345'' = [] \<and>
         fst (legacy_validateField s ''phone'' (Some r))"
proof -
  have t: "trim ''12345'' = ''12345''" by (simp add: trim_def is_space_def)
  have m: "legacy_errorMessage ''phone'' ''12345'' = []"
    by (simp add: legacy_errorMessage_def legacy_phone_short)
  show ?thesis
    using assms t m legacy_phone_short by (simp add: legacy_validateField_def Let_def)
qed

theorem legacy_phone_accepts_short_witness:
  "fst (legacy_validateField (phone_page ''12345'') ''phone'' (Some 0)) \<and>
   \<not> fst (validateField (phone_page ''12345'') (Some 0))"
proof -
  have e: "el (phone_page ''12345'') 0 = control ''phone'' ''tel'' ''12345'' True []"
    by (simp add: phone_page_def page_def el_def)
  have "\<not> regex_test patterns_phone ''12345''" by (simp add: patterns_phone_iff)
  then have n: "\<not> fst (validateField (phone_page ''12345'') (Some 0))"
    by (simp add: validateField_verdict e control_def node_def field_ok_def field_rules_def
        trim_def is_space_def)
  show ?thesis
    using legacy_phone_accepts_short[of "phone_page ''12345''" 0] n
    by (simp add: e control_def node_def)
qed

section \<open>The order identifier\<close>

lemma digit_char: "n < 10 \<Longrightarrow> is_digit (''0123456789'' ! n)"
proof -
  assume "n < 10"
  then have "n \<in> {0, 1, 2, 3, 4, 5, 6, 7, 8, 9}" by auto
  then show ?thesis by (auto simp add: is_digit_def in_range_def)
qed

lemma nat_toString_digits: "list_all is_digit (nat_toString n)"
proof (induction n rule: nat_toString.induct)
  case (1 n)
  show ?case
  proof (cases "n < 10")
    case True
    then show ?thesis by (subst nat_toString.simps) (simp add: digit_char)
  next
    case False
    with 1 show ?thesis by (subst nat_toString.simps) (simp add: digit_char)
  qed
qed

lemma upper_char_base36: "is_base36_lower c \<Longrightarrow> is_base36_upper (upper_char c)"
  by (auto simp add: is_base36_lower_def is_base36_upper_def upper_char_def)

text \<open>
  Claim C6, as amended. \<^verbatim>\<open>generateOrderId\<close> returns \<^verbatim>\<open>RJ-\<close>, the clock value in decimal,
  a hyphen and a token. The token is the upper-cased run of up to 7 characters that
  follows the first two characters of the base-36 rendering of the random number: its
  length is the smaller of 7 and the number of characters after \<^verbatim>\<open>0.\<close>, and its
  characters are base-36 digits \<^verbatim>\<open>0-9A-Z\<close>.
\<close>

theorem generateOrderId_format:
  "generateOrderId now rnd = ''RJ-'' @ number_toString now @ ''-'' @ random_token rnd \<and>
   length (random_token rnd) = min 7 (length rnd - 2) \<and>
   (0 \<le> now \<longrightarrow> list_all is_digit (number_toString now)) \<and>
   (is_radix36_fraction rnd \<longrightarrow> list_all is_base36_upper (random_token rnd))"
proof -
  have "list_all is_base36_upper (random_token rnd)" if "is_radix36_fraction rnd"
  proof -
    from that have "list_all is_base36_lower (drop 2 rnd)"
      by (auto simp add: is_radix36_fraction_def)
    then have "list_all is_base36_lower (take 7 (drop 2 rnd))"
      by (auto simp add: list_all_iff dest: in_set_takeD)
    then show ?thesis
      by (simp add: random_token_def toUpperCase_def substring_def list_all_iff upper_char_base36)
  qed
  then show ?thesis
    by (auto simp add: generateOrderId_def random_token_def toUpperCase_def substring_def
        number_toString_def nat_toString_digits)
qed

theorem generateOrderId_format_witness:
  "generateOrderId 1700000000000 ''0.4fzyo82mvyr'' = ''RJ-1700000000000-4FZYO82'' \<and>
   list_all is_digit (number_toString 1700000000000) \<and>
   list_all is_base36_upper (random_token ''0.4fzyo82mvyr'') \<and>
   length (random_token ''0.4fzyo82mvyr'') = 7"
  using generateOrderId_format[of 1700000000000 "''0.4fzyo82mvyr''"]
  by (simp add: is_radix36_fraction_def is_base36_lower_def random_token_def toUpperCase_def
      substring_def upper_char_def number_toString_def nat_toString.simps)

text \<open>
  The token is not always 7 characters long: the random number 0.5 is rendered
  \<^verbatim>\<open>0.i\<close> and gives the one-character token \<^verbatim>\<open>I\<close>.
\<close>

theorem generateOrderId_short_token:
  "is_radix36_fraction ''0.i'' \<and> length (random_token ''0.i'') = 1 \<and>
   generateOrderId 1700000000000 ''0.i'' = ''RJ-1700000000000-I''"
  by (simp add: is_radix36_fraction_def is_base36_lower_def generateOrderId_def random_token_def
      toUpperCase_def substring_def upper_char_def number_toString_def nat_toString.simps)

section \<open>Validation\<close>

lemma keeps_step:
  "keeps P s x \<Longrightarrow> (\<And>e. P (f e) = P e) \<Longrightarrow> keeps P s (upd x r f)"
  by (blast intro: keeps_trans keeps_upd)

lemma rest_api [simp]:
  "rest (classList_remove s r x) = rest s"
  "rest (classList_add s r x) = rest s"
  "rest (setAttribute s r k v) = rest s"
  "rest (set_textContent s r t) = rest s"
  "rest (set_display s r d) = rest s"
  "rest (set_disabled s r b) = rest s"
  by (simp_all add: api_defs)

lemma validateField_frame:
  assumes "mark_free P"
  shows "keeps P s (snd (validateField s fld))"
  using assms unfolding mark_free_def
  by (auto simp add: validateField_def Let_def api_defs split: option.splits prod.splits
      intro!: keeps_step)

lemma validateField_rest [simp]: "rest (snd (validateField s fld)) = rest s"
  by (simp add: validateField_def Let_def split: option.splits prod.splits)

lemma keeps_sym: "keeps P s s' \<Longrightarrow> keeps P s' s"
  by (simp add: keeps_def)

lemma keepsD: "keeps P s s' \<Longrightarrow> P (el s' k) = P (el s k)"
  by (simp add: keeps_def)

lemma validateForm_fold:
  assumes mf: "mark_free P"
  shows "keeps P s (snd (fold validateForm_step fs (b, s))) \<and>
         rest (snd (fold validateForm_step fs (b, s))) = rest s"
proof (induction fs arbitrary: b s)
  case Nil
  then show ?case by simp
next
  case (Cons f fs)
  obtain b1 s1 where step: "validateForm_step f (b, s) = (b1, s1)"
    by (cases "validateForm_step f (b, s)")
  have k1: "keeps P s s1 \<and> rest s1 = rest s"
  proof (cases "validateField s f")
    case (Pair ok s')
    have "keeps P s s'" "rest s' = rest s"
      using validateField_frame[of P s f, OF mf] validateField_rest[of s f] Pair by simp_all
    then show ?thesis
      using step Pair by (auto simp add: validateForm_step_def split: option.splits if_splits)
  qed
  from Cons.IH[where b=b1 and s=s1] k1 show ?case
    by (auto simp add: step intro: keeps_trans)
qed

lemma validateForm_verdict_fold:
  "fst (fold validateForm_step fs (b, s)) = (b \<and> list_all (passes s) fs)"
proof (induction fs arbitrary: b s)
  case Nil
  then show ?case by simp
next
  case (Cons f fs)
  obtain b1 s1 where step: "validateForm_step f (b, s) = (b1, s1)"
    by (cases "validateForm_step f (b, s)")
  have b1: "b1 = (b \<and> passes s f)"
  proof (cases f)
    case None
    then show ?thesis using step by (simp add: validateForm_step_def passes_def)
  next
    case (Some r)
    obtain ok s' where vf: "validateField s (Some r) = (ok, s')"
      by (cases "validateField s (Some r)")
    then have "ok = field_ok (el s r)"
      using validateField_verdict[of s r] by simp
    then show ?thesis
      using step Some vf by (auto simp add: validateForm_step_def passes_def split: if_splits)
  qed
  have k: "keeps (\<lambda>e. (el_name e, field_ok e)) s s1"
  proof (cases "validateField s f")
    case (Pair ok s')
    have "keeps (\<lambda>e. (el_name e, field_ok e)) s s'"
      using validateField_frame[of "\<lambda>e. (el_name e, field_ok e)" s f] Pair
      by (simp add: field_ok_def mark_free_def)
    then show ?thesis
      using step Pair by (auto simp add: validateForm_step_def split: option.splits if_splits)
  qed
  have same: "passes s1 g = passes s g" for g
    using keepsD[OF k] by (cases g) (auto simp add: passes_def)
  have "list_all (passes s1) fs = list_all (passes s) fs"
    by (simp add: same list_all_iff)
  with Cons.IH[where b=b1 and s=s1] b1 show ?case
    by (auto simp add: step)
qed

lemma validateForm_verdict:
  "fst (validateForm s) = list_all (passes s) (Object_values (formFields s))"
  by (simp add: validateForm_def validateForm_verdict_fold)

lemma validateForm_frame:
  assumes "mark_free P"
  shows "keeps P s (snd (validateForm s))"
  using validateForm_fold[of P s _ True, OF assms] by (simp add: validateForm_def)

lemma validateForm_rest [simp]: "rest (snd (validateForm s)) = rest s"
  using validateForm_fold[of "\<lambda>e. ()" s _ True] by (simp add: validateForm_def mark_free_def)

section \<open>The submit handler: spam and invalid forms\<close>

lemma emit_reads [simp]:
  "doc (emit s e) = doc s" "formFields (emit s e) = formFields s"
  "trace (emit s e) = trace s @ [e]" "el (emit s e) r = el s r"
  "getElementById (emit s e) i = getElementById s i"
  "activeElement (emit s e) = activeElement s" "previousFocus (emit s e) = previousFocus s"
  "activeModal (emit s e) = activeModal s" "body_overflow (emit s e) = body_overflow s"
  "timers (emit s e) = timers s" "has_closeOrderForm (emit s e) = has_closeOrderForm s"
  "has_formModule (emit s e) = has_formModule s"
  "has_pdfPreviewModule (emit s e) = has_pdfPreviewModule s"
  by (auto simp add: emit_def el_def getElementById_def fun_eq_iff)

lemma emit_derived [simp]:
  "passes (emit s e) fld = passes s fld" "spam_detected (emit s e) = spam_detected s"
  "getAttribute (emit s e) r k = getAttribute s r k"
  "querySelector_within (emit s e) r c = querySelector_within s r c"
  "querySelector_class (emit s e) c = querySelector_class s c"
  "getFormData ev (emit s e) = getFormData ev s"
  "FormData_of (emit s e) r = FormData_of s r"
  by (simp_all add: passes_def spam_detected_def querySelector_within_def
      querySelector_class_def getAttribute_def getFormData_def trimmed_value_def raw_value_def
      FormData_of_def cong: option.case_cong)

lemma passes_emit [simp]: "passes (emit s e) = passes s"
  by (rule ext) simp

lemma emit_emit: "emit (emit s a) b = s\<lparr>trace := trace s @ [a, b]\<rparr>"
  by (simp add: emit_def)

lemma emit_configured [simp]: "configured (emit s e) = configured s"
  by (simp add: configured_def cong: option.case_cong)

lemma keeps_emit [simp]: "keeps P s (emit s e)" "keeps P (emit s e) s"
  by (simp_all add: keeps_def)

lemma rest_eqD:
  assumes "rest s' = rest s"
  shows "trace s' = trace s" "formFields s' = formFields s" "activeElement s' = activeElement s"
    "previousFocus s' = previousFocus s" "activeModal s' = activeModal s"
    "body_overflow s' = body_overflow s" "timers s' = timers s"
    "has_closeOrderForm s' = has_closeOrderForm s" "has_formModule s' = has_formModule s"
    "has_pdfPreviewModule s' = has_pdfPreviewModule s"
proof -
  have "trace (rest s') = trace (rest s)" "formFields (rest s') = formFields (rest s)"
    "activeElement (rest s') = activeElement (rest s)"
    "previousFocus (rest s') = previousFocus (rest s)" "activeModal (rest s') = activeModal (rest s)"
    "body_overflow (rest s') = body_overflow (rest s)" "timers (rest s') = timers (rest s)"
    "has_closeOrderForm (rest s') = has_closeOrderForm (rest s)"
    "has_formModule (rest s') = has_formModule (rest s)"
    "has_pdfPreviewModule (rest s') = has_pdfPreviewModule (rest s)"
    by (simp_all only: assms)
  then show "trace s' = trace s" "formFields s' = formFields s" "activeElement s' = activeElement s"
    "previousFocus s' = previousFocus s" "activeModal s' = activeModal s"
    "body_overflow s' = body_overflow s" "timers s' = timers s"
    "has_closeOrderForm s' = has_closeOrderForm s" "has_formModule s' = has_formModule s"
    "has_pdfPreviewModule s' = has_pdfPreviewModule s"
    by (simp_all add: rest_def)
qed

lemma rest_trace: "rest s' = rest s \<Longrightarrow> trace s' = trace s"
  by (rule rest_eqD)

lemma rest_fields: "rest s' = rest s \<Longrightarrow> formFields s' = formFields s"
  by (rule rest_eqD)

lemma emitted_append [simp]: "trace s' = trace s @ evs \<Longrightarrow> emitted s s' = evs"
  by (simp add: emitted_def)

lemma validateForm_emit_verdict [simp]:
  "fst (validateForm (emit s e)) = fst (validateForm s)"
  by (simp add: validateForm_verdict)

lemma validateForm_trace [simp]: "trace (snd (validateForm s)) = trace s"
  by (rule rest_trace) simp

lemma validateForm_fields [simp]: "formFields (snd (validateForm s)) = formFields s"
  by (rule rest_fields) simp

lemma focus_reads [simp]: "trace (focus s x) = trace s" "doc (focus s x) = doc s"
  by (simp_all add: focus_def split: target.splits)

lemma handleSubmit_spam: "spam_detected s \<Longrightarrow> handleSubmit ev s = spam_abort s"
  by (simp add: handleSubmit_def Let_def spam_abort_def emit_emit)

lemma handleSubmit_invalid:
  assumes "\<not> spam_detected s" "\<not> fst (validateForm s)"
  shows "trace (handleSubmit ev s) = trace s @ [PreventDefault]"
proof -
  obtain b s1 where v: "validateForm (emit s PreventDefault) = (b, s1)"
    by (cases "validateForm (emit s PreventDefault)")
  have "\<not> b" using assms(2) validateForm_emit_verdict[of s PreventDefault] v by simp
  moreover have "trace s1 = trace s @ [PreventDefault]"
    using validateForm_trace[of "emit s PreventDefault"] v by simp
  ultimately show ?thesis
    using assms(1) v by (simp add: handleSubmit_def Let_def split: option.splits)
qed

section \<open>The submit button\<close>

lemma len_upd [simp]: "length (doc (upd s r f)) = length (doc s)"
  by (simp add: upd_def)

lemma loading_frame:
  assumes "loading_free P"
  shows "keeps P s (setSubmitButtonLoading s l)"
  using assms unfolding loading_free_def
  by (auto simp add: setSubmitButtonLoading_def Let_def api_defs split: option.splits
      intro!: keeps_step)

lemma loading_rest [simp]: "rest (setSubmitButtonLoading s l) = rest s"
  by (simp add: setSubmitButtonLoading_def Let_def split: option.splits)

lemma loading_trace [simp]: "trace (setSubmitButtonLoading s l) = trace s"
  by (rule rest_trace) simp

lemma loading_disabled:
  assumes "getElementById s ''submitOrderBtn'' = Some b"
  shows "el_disabled (el (setSubmitButtonLoading s l) b) = l"
  using assms getElementById_Some[OF assms]
  by (simp add: setSubmitButtonLoading_def Let_def api_defs el_upd split: option.splits)

lemma querySelector_within_Some:
  "querySelector_within s p c = Some t \<Longrightarrow> t < length (doc s) \<and> p \<in> set (el_ancestors (el s t))"
  unfolding querySelector_within_def el_def by (drule first_index_Some) simp

lemma loading_display:
  assumes "getElementById s ''submitOrderBtn'' = Some b" "b \<notin> set (el_ancestors (el s k))"
  shows "el_display (el (setSubmitButtonLoading s l) k) = el_display (el s k)"
proof -
  have t: "querySelector_within s b c = Some t \<Longrightarrow> t \<noteq> k" for c t
    using querySelector_within_Some[of s b c t] assms(2) by auto
  show ?thesis
    using assms(1) t
    by (auto simp add: setSubmitButtonLoading_def Let_def api_defs el_upd
        split: option.splits)
qed

lemma loading_none:
  "getElementById s ''submitOrderBtn'' = None \<Longrightarrow> setSubmitButtonLoading s l = s"
  by (simp add: setSubmitButtonLoading_def)

section \<open>Sending the order\<close>

lemma submitFormData_unconfigured:
  "\<not> configured s \<Longrightarrow>
   submitFormData ev s fd = (Inl (Error ''FORMSPREE_NOT_CONFIGURED''), emit s (Alert config_alert))"
  by (auto simp add: configured_def submitFormData_def config_alert_def Let_def
      split: option.splits)

text \<open>The body of the request that \<^verbatim>\<open>submitFormData\<close> sends for the form \<open>f\<close>.\<close>

lemma submitFormData_configured:
  assumes "configured s"
  obtains f a where
    "getElementById s ''shippingForm'' = Some f" "getAttribute s f ''action'' = Some a"
    "submitFormData ev s fd =
       (let body = FormData_set (FormData_set (FormData_set (FormData_of s f)
                     ''orderId'' (od_orderId fd)) ''timestamp'' (od_timestamp fd))
                     ''_replyto'' (od_email fd);
            s1 = emit s (Fetch a ''POST'' body [(''Accept'', ''application/json'')])
        in case fetch_outcome ev of
             NetworkFailure \<Rightarrow>
               (Inl (TypeError ''Failed to fetch''), emit s1 (ConsoleError ''Submission error:''))
           | Response ok \<Rightarrow>
               if ok then (Inr \<lparr>sr_success = True, sr_orderId = od_orderId fd\<rparr>, s1)
               else (Inl (Error ''Form submission failed''),
                     emit s1 (ConsoleError ''Submission error:'')))"
  using assms
  by (auto simp add: configured_def submitFormData_def Let_def
      split: option.splits fetch_result.splits)

lemma submitFormData_doc [simp]: "doc (snd (submitFormData ev s fd)) = doc s"
  by (simp add: submitFormData_def Let_def split: option.splits fetch_result.splits)

lemma submitFormData_rest_but_trace:
  "snd (submitFormData ev s fd) = s\<lparr>trace := trace (snd (submitFormData ev s fd))\<rparr>"
  by (simp add: submitFormData_def Let_def emit_def split: option.splits fetch_result.splits)

section \<open>Facts about the sample pages\<close>

lemma order_page_loaded:
  "order_page a f g = load_ui_module (load_form_module (page (order_doc a f g)))"
  by (simp add: order_page_def load_ui_module_def load_form_module_def form_init_def page_def
      order_doc_def order_fields_def getElementById_def querySelector_name_def node_def
      control_def)

lemma order_doc_nth:
  "order_doc a f g ! 3 = control ''firstName'' ''text'' f True [1, 2]"
  "order_doc a f g ! 5 = control ''lastName'' ''text'' ''Khan'' True [1, 2]"
  "order_doc a f g ! 6 = control ''email'' ''text'' ''ali@example.com'' True [1, 2]"
  "order_doc a f g ! 7 = control ''phone'' ''tel'' ''+92-300-1234567'' True [1, 2]"
  "order_doc a f g ! 8 = control ''addressLine1'' ''text'' ''12 Mall Road'' True [1, 2]"
  "order_doc a f g ! 9 = control ''addressLine2'' ''text'' [] False [1, 2]"
  "order_doc a f g ! 10 = control ''city'' ''text'' ''Lahore'' True [1, 2]"
  "order_doc a f g ! 11 = control ''state'' ''text'' ''Punjab'' True [1, 2]"
  "order_doc a f g ! 12 = control ''postalCode'' ''text'' ''54000'' True [1, 2]"
  "order_doc a f g ! 13 = control ''country'' ''select-one'' ''Pakistan'' True [1, 2]"
  "order_doc a f g ! 14 = (control ''privacyConsent'' ''checkbox'' ''on'' True [1, 2])\<lparr>el_checked := True\<rparr>"
  "order_doc a f g ! 15 = (control ''_gotcha'' ''text'' g False [1, 2])\<lparr>el_id := []\<rparr>"
  by (simp_all add: order_doc_def)

lemma email_ok: "regex_test patterns_email ''ali@example.com''"
  by code_simp

lemma name_ok: "regex_test patterns_name ''Ali''" "regex_test patterns_name ''Khan''"
  by (simp_all add: patterns_name_def regex_single name_char_def is_lower_def is_upper_def in_range_def)

lemma postal_ok: "regex_test patterns_postalCode ''54000''"
  by (simp add: patterns_postalCode_def regex_single postal_char_def is_digit_def in_range_def)

lemma phone_ok: "regex_test patterns_phone ''+92-300-1234567''"
  by (simp add: patterns_phone_iff phone_char_def is_digit_def in_range_def)

lemma trims:
  "trim ''Ali'' = ''Ali''" "trim ''Khan'' = ''Khan''" "trim ''ali@example.com'' = ''ali@example.com''"
  "trim ''+92-300-1234567'' = ''+92-300-1234567''" "trim ''12 Mall Road'' = ''12 Mall Road''"
  "trim ''Lahore'' = ''Lahore''" "trim ''Punjab'' = ''Punjab''" "trim ''54000'' = ''54000''"
  "trim ''Pakistan'' = ''Pakistan''" "trim ''on'' = ''on''" "trim '' Ali '' = ''Ali''"
  "trim [] = []" "trim '' '' = []"
  by (simp_all add: trim_def is_space_def)

lemma order_page_valid:
  "f = ''Ali'' \<or> f = '' Ali '' \<Longrightarrow> fst (validateForm (order_page a f g))"
  by (auto simp add: validateForm_verdict order_page_def page_def order_fields_def Object_values_def
      passes_def el_def order_doc_nth control_def node_def field_ok_def field_rules_def
      email_ok name_ok postal_ok phone_ok trims)

section \<open>The submit handler on a valid form\<close>

lemma getFormData_keeps:
  assumes "keeps (\<lambda>e. (el_value e, el_checked e)) s s'" "formFields s' = formFields s"
  shows "getFormData ev s' = getFormData ev s"
proof -
  have v: "el_value (el s' k) = el_value (el s k)" and c: "el_checked (el s' k) = el_checked (el s k)" for k
    using keepsD[OF assms(1), of k] by simp_all
  show ?thesis
    by (simp add: getFormData_def trimmed_value_def raw_value_def assms(2) v c
        cong: option.case_cong)
qed

lemma configured_keeps:
  assumes "keeps (\<lambda>e. (el_id e, el_attrs e ''action'')) s s'"
  shows "configured s' = configured s"
proof -
  have i: "keeps el_id s s'" using assms by (simp add: keeps_def)
  have a: "getAttribute s' f ''action'' = getAttribute s f ''action''" for f
    using keepsD[OF assms, of f] by (simp add: getAttribute_def)
  show ?thesis
    by (simp add: configured_def keeps_getElementById[OF i] a cong: option.case_cong)
qed

text \<open>The page after validation has passed and the button has been put in its loading
  state: the state in which the request is sent.\<close>

lemma handleSubmit_valid:
  assumes "\<not> spam_detected s" "fst (validateForm s)"
  shows "handleSubmit ev s =
     (let s1 = snd (validateForm (emit s PreventDefault));
          formData = getFormData ev s;
          s2 = setSubmitButtonLoading s1 True;
          s3 = (case submitFormData ev s2 formData of
                  (Inl err, s') \<Rightarrow> emit s' (Alert failure_alert)
                | (Inr res, s') \<Rightarrow>
                    (case on_success s' formData of
                       (Some err, s'') \<Rightarrow> emit s'' (Alert failure_alert)
                     | (None, s'') \<Rightarrow> s''))
      in setSubmitButtonLoading s3 False)"
proof -
  obtain b s1 where v: "validateForm (emit s PreventDefault) = (b, s1)"
    by (cases "validateForm (emit s PreventDefault)")
  have b: "b" using assms(2) validateForm_emit_verdict[of s PreventDefault] v by simp
  have k: "keeps (\<lambda>e. (el_value e, el_checked e)) (emit s PreventDefault) s1"
    using validateForm_frame[of "\<lambda>e. (el_value e, el_checked e)" "emit s PreventDefault"] v
    by (simp add: mark_free_def)
  have f: "formFields s1 = formFields (emit s PreventDefault)"
    using validateForm_fields[of "emit s PreventDefault"] v by simp
  have fd: "getFormData ev s1 = getFormData ev s"
    using getFormData_keeps[OF k f] by simp
  show ?thesis
    using assms(1) v b fd
    by (simp add: handleSubmit_def Let_def cong: prod.case_cong sum.case_cong)
qed

lemma loaded_configured:
  "configured (setSubmitButtonLoading (snd (validateForm (emit s PreventDefault))) True) = configured s"
proof -
  let ?P = "\<lambda>e. (el_id e, el_attrs e ''action'')"
  have "keeps ?P (emit s PreventDefault) (snd (validateForm (emit s PreventDefault)))"
    by (rule validateForm_frame) (simp add: mark_free_def)
  moreover have "keeps ?P (snd (validateForm (emit s PreventDefault)))
      (setSubmitButtonLoading (snd (validateForm (emit s PreventDefault))) True)"
    by (rule loading_frame) (simp add: loading_free_def)
  ultimately have "keeps ?P (emit s PreventDefault)
      (setSubmitButtonLoading (snd (validateForm (emit s PreventDefault))) True)"
    by (rule keeps_trans)
  then show ?thesis using configured_keeps by fastforce
qed

lemma loaded_trace:
  "trace (setSubmitButtonLoading (snd (validateForm (emit s PreventDefault))) True) =
   trace s @ [PreventDefault]"
  by simp

lemma handleSubmit_unconfigured:
  assumes "\<not> spam_detected s" "fst (validateForm s)" "\<not> configured s"
  shows "trace (handleSubmit ev s) = trace s @ [PreventDefault, Alert config_alert, Alert failure_alert]"
  using assms(3)
  by (simp add: handleSubmit_valid[OF assms(1,2)] Let_def submitFormData_unconfigured loaded_configured)

lemma handleSubmit_failed:
  assumes "\<not> spam_detected s" "fst (validateForm s)" "configured s"
    "fetch_outcome ev \<noteq> Response True"
  shows "\<exists>a body. trace (handleSubmit ev s) =
           trace s @ [PreventDefault, Fetch a ''POST'' body [(''Accept'', ''application/json'')],
                      ConsoleError ''Submission error:'', Alert failure_alert]"
proof -
  let ?s2 = "setSubmitButtonLoading (snd (validateForm (emit s PreventDefault))) True"
  have c: "configured ?s2" using assms(3) loaded_configured by simp
  obtain f a where sub: "submitFormData ev ?s2 (getFormData ev s) =
       (let body = FormData_set (FormData_set (FormData_set (FormData_of ?s2 f)
                     ''orderId'' (od_orderId (getFormData ev s))) ''timestamp'' (od_timestamp (getFormData ev s)))
                     ''_replyto'' (od_email (getFormData ev s));
            s1 = emit ?s2 (Fetch a ''POST'' body [(''Accept'', ''application/json'')])
        in case fetch_outcome ev of
             NetworkFailure \<Rightarrow>
               (Inl (TypeError ''Failed to fetch''), emit s1 (ConsoleError ''Submission error:''))
           | Response ok \<Rightarrow>
               if ok then (Inr \<lparr>sr_success = True, sr_orderId = od_orderId (getFormData ev s)\<rparr>, s1)
               else (Inl (Error ''Form submission failed''),
                     emit s1 (ConsoleError ''Submission error:'')))"
    using submitFormData_configured[OF c, of ev "getFormData ev s"] by metis
  show ?thesis
    using assms(4)
    by (cases "fetch_outcome ev")
       (auto simp add: handleSubmit_valid[OF assms(1,2)] Let_def sub)
qed

section \<open>The modals\<close>

lemma sel_upd [simp]:
  "trace (upd s r f) = trace s" "formFields (upd s r f) = formFields s"
  "activeElement (upd s r f) = activeElement s" "previousFocus (upd s r f) = previousFocus s"
  "activeModal (upd s r f) = activeModal s" "body_overflow (upd s r f) = body_overflow s"
  "timers (upd s r f) = timers s" "has_closeOrderForm (upd s r f) = has_closeOrderForm s"
  "has_formModule (upd s r f) = has_formModule s"
  "has_pdfPreviewModule (upd s r f) = has_pdfPreviewModule s"
  by (simp_all add: upd_def)

lemma keeps_fixed:
  assumes "keeps fixed s s'"
  shows "keeps el_id s s'" "keeps el_name s s'" "keeps el_ancestors s s'"
  using assms by (auto simp add: keeps_def fixed_def)

lemma fixed_free [simp]: "mark_free fixed" "loading_free fixed" "reset_free fixed"
  by (simp_all add: mark_free_def loading_free_def reset_free_def reset_control_def fixed_def)

lemma display_free [simp]: "mark_free el_display" "reset_free el_display"
  by (simp_all add: mark_free_def reset_free_def reset_control_def)

lemma el_form_reset:
  "el (form_reset s f) k =
     (if k < length (doc s) \<and> f \<in> set (el_ancestors (el s k)) then reset_control (el s k)
      else el s k)"
proof (cases "k < length (doc s)")
  case True
  then show ?thesis by (simp add: el_def form_reset_def)
next
  case False
  then show ?thesis
    using nth_beyond[of "map (\<lambda>e. if f \<in> set (el_ancestors e) then reset_control e else e) (doc s)"
        "doc s" k]
    by (simp add: el_def form_reset_def)
qed

lemma form_reset_frame: "reset_free P \<Longrightarrow> keeps P s (form_reset s f)"
  by (simp add: keeps_def el_form_reset reset_free_def) (simp add: form_reset_def)

lemma form_reset_rest [simp]: "rest (form_reset s f) = rest s"
  by (simp add: form_reset_def rest_def)

lemma resetForm_step_frame: "mark_free P \<Longrightarrow> keeps P s (resetForm_step fld s)"
  unfolding mark_free_def
  by (auto simp add: resetForm_step_def Let_def api_defs split: option.splits intro!: keeps_step)

lemma resetForm_step_rest [simp]: "rest (resetForm_step fld s) = rest s"
  by (simp add: resetForm_step_def Let_def split: option.splits)

lemma resetForm_fold:
  "mark_free P \<Longrightarrow> keeps P s (fold resetForm_step fs s) \<and> rest (fold resetForm_step fs s) = rest s"
proof (induction fs arbitrary: s)
  case Nil
  then show ?case by simp
next
  case (Cons f fs)
  from Cons.IH[OF Cons.prems, of "resetForm_step f s"] resetForm_step_frame[OF Cons.prems, of s f]
  show ?case by (auto intro: keeps_trans)
qed

lemma resetForm_frame:
  assumes "mark_free P" "reset_free P"
  shows "keeps P s (resetForm s)"
proof (cases "getElementById s ''shippingForm''")
  case None
  then show ?thesis by (simp add: resetForm_def)
next
  case (Some f)
  have "keeps P s (form_reset s f)" using assms(2) by (rule form_reset_frame)
  moreover have "keeps P (form_reset s f) (fold resetForm_step (Object_values (formFields s)) (form_reset s f))"
    using resetForm_fold[OF assms(1)] by blast
  ultimately show ?thesis using Some by (auto simp add: resetForm_def intro: keeps_trans)
qed

lemma resetForm_rest [simp]: "rest (resetForm s) = rest s"
  using resetForm_fold[of "\<lambda>e. ()"]
  by (simp add: resetForm_def mark_free_def split: option.splits)

lemma resetForm_sel [simp]:
  "trace (resetForm s) = trace s" "previousFocus (resetForm s) = previousFocus s"
  "activeElement (resetForm s) = activeElement s" "has_closeOrderForm (resetForm s) = has_closeOrderForm s"
  "has_pdfPreviewModule (resetForm s) = has_pdfPreviewModule s" "timers (resetForm s) = timers s"
  "formFields (resetForm s) = formFields s"
  using rest_eqD[OF resetForm_rest[of s]] by simp_all

lemma focus_sel [simp]:
  "el (focus s x) k = el s k" "previousFocus (focus s x) = previousFocus s"
  "has_closeOrderForm (focus s x) = has_closeOrderForm s"
  "has_pdfPreviewModule (focus s x) = has_pdfPreviewModule s"
  "getElementById (focus s x) i = getElementById s i"
  by (simp_all add: focus_def el_def getElementById_def split: target.splits)

lemma keeps_doc_update [simp]:
  "keeps P s (x\<lparr>body_overflow := b\<rparr>) = keeps P s x"
  "keeps P s (x\<lparr>activeModal := m\<rparr>) = keeps P s x"
  "keeps P s (x\<lparr>previousFocus := p\<rparr>) = keeps P s x"
  "keeps P s (x\<lparr>activeElement := a\<rparr>) = keeps P s x"
  "keeps P s (x\<lparr>timers := t\<rparr>) = keeps P s x"
  "keeps P s (focus x y) = keeps P s x"
  "keeps P s (setTimeout x c n) = keeps P s x"
  by (simp_all add: keeps_def el_def focus_def setTimeout_def split: target.splits)

lemma keeps_doc_update_left [simp]:
  "keeps P (x\<lparr>body_overflow := b\<rparr>) y = keeps P x y"
  "keeps P (x\<lparr>activeModal := m\<rparr>) y = keeps P x y"
  "keeps P (x\<lparr>previousFocus := p\<rparr>) y = keeps P x y"
  "keeps P (x\<lparr>activeElement := a\<rparr>) y = keeps P x y"
  "keeps P (x\<lparr>timers := t\<rparr>) y = keeps P x y"
  "keeps P (focus x z) y = keeps P x y"
  "keeps P (setTimeout x c n) y = keeps P x y"
  by (simp_all add: keeps_def el_def focus_def setTimeout_def split: target.splits)

lemma el_other_update [simp]:
  "el (x\<lparr>body_overflow := b\<rparr>) k = el x k"
  "el (x\<lparr>activeModal := m\<rparr>) k = el x k"
  "el (x\<lparr>previousFocus := p\<rparr>) k = el x k"
  "el (x\<lparr>activeElement := a\<rparr>) k = el x k"
  "el (setTimeout x c n) k = el x k"
  by (simp_all add: el_def setTimeout_def)

lemma closeOrderForm_frame:
  assumes "mark_free P" "reset_free P" "\<And>e d. P (e\<lparr>el_display := d\<rparr>) = P e"
    "\<And>e v. P (e\<lparr>el_attrs := (el_attrs e)(''data-submitted'' \<mapsto> v)\<rparr>) = P e"
  shows "keeps P s (closeOrderForm s)"
proof (cases "getElementById s ''orderModal''")
  case None
  then show ?thesis by (simp add: closeOrderForm_def)
next
  case (Some m)
  let ?s2 = "(set_display s m ''none'')\<lparr>body_overflow := [], activeModal := None\<rparr>"
  have k2: "keeps P s ?s2"
    using assms(3) by (simp add: api_defs keeps_upd)
  have "keeps P s (resetForm ?s2)"
    using k2 resetForm_frame[OF assms(1,2), of ?s2] by (rule keeps_trans)
  then have k3: "keeps P s (setAttribute (resetForm ?s2) m ''data-submitted'' ''false'')"
    unfolding setAttribute_def using assms(4) by (rule keeps_step)
  show ?thesis
    using Some k2 k3 by (simp add: closeOrderForm_def Let_def split: option.splits)
qed

lemma closeOrderForm_display:
  assumes "getElementById s ''orderModal'' = Some m"
  shows "el_display (el (closeOrderForm s) m) = ''none''"
proof -
  let ?s2 = "(set_display s m ''none'')\<lparr>body_overflow := [], activeModal := None\<rparr>"
  have d2: "el_display (el ?s2 m) = ''none''"
    using getElementById_Some[OF assms] by (simp add: api_defs el_upd)
  have "el_display (el (resetForm ?s2) m) = ''none''"
    using keepsD[OF resetForm_frame[of el_display ?s2], of m] d2 by simp
  then have d3: "el_display (el (setAttribute (resetForm ?s2) m ''data-submitted'' ''false'') m) = ''none''"
    by (simp add: api_defs el_upd)
  show ?thesis
    using assms d2 d3 by (simp add: closeOrderForm_def Let_def split: option.splits)
qed

lemma closeOrderForm_sel [simp]:
  "trace (closeOrderForm s) = trace s" "has_pdfPreviewModule (closeOrderForm s) = has_pdfPreviewModule s"
  "timers (closeOrderForm s) = timers s"
  by (simp_all add: closeOrderForm_def Let_def api_defs focus_def split: option.splits target.splits)

lemma closeOrderForm_focus:
  assumes "getElementById s ''orderModal'' = Some m"
  shows "previousFocus (closeOrderForm s) = None"
  using assms
  by (simp add: closeOrderForm_def Let_def api_defs focus_def split: option.splits target.splits)

lemma openConfirmation_frame:
  assumes "\<And>e t. P (e\<lparr>el_textContent := t\<rparr>) = P e" "\<And>e d. P (e\<lparr>el_display := d\<rparr>) = P e"
  shows "keeps P s (openConfirmation s fd)"
  using assms
  by (auto simp add: openConfirmation_def Let_def api_defs split: option.splits intro!: keeps_step)

lemma openConfirmation_sel [simp]:
  "trace (openConfirmation s fd) = trace s" "previousFocus (openConfirmation s fd) = previousFocus s"
  "activeElement (openConfirmation s fd) = activeElement s"
  "has_pdfPreviewModule (openConfirmation s fd) = has_pdfPreviewModule s"
  "timers (openConfirmation s fd) = timers s"
  by (simp_all add: openConfirmation_def Let_def api_defs split: option.splits)

lemma openConfirmation_effect:
  assumes cm: "getElementById s ''confirmationModal'' = Some cm"
    and oi: "getElementById s ''orderIdDisplay'' = Some oi"
    and em: "getElementById s ''emailDisplay'' = Some em"
  shows "el_display (el (openConfirmation s fd) cm) = ''flex''"
    "k \<noteq> cm \<Longrightarrow> el_display (el (openConfirmation s fd) k) = el_display (el s k)"
    "el_textContent (el (openConfirmation s fd) oi) = od_orderId fd"
    "el_textContent (el (openConfirmation s fd) em) = od_email fd"
proof -
  have ne: "oi \<noteq> em" using getElementById_Some[OF oi] getElementById_Some[OF em] by auto
  have r: "cm < length (doc s)" "oi < length (doc s)" "em < length (doc s)"
    using getElementById_Some[OF cm] getElementById_Some[OF oi] getElementById_Some[OF em] by auto
  show "el_display (el (openConfirmation s fd) cm) = ''flex''"
    using cm oi em r by (simp add: openConfirmation_def Let_def api_defs el_upd)
  show "k \<noteq> cm \<Longrightarrow> el_display (el (openConfirmation s fd) k) = el_display (el s k)"
    using cm oi em r by (simp add: openConfirmation_def Let_def api_defs el_upd)
  show "el_textContent (el (openConfirmation s fd) oi) = od_orderId fd"
    using cm oi em r ne by (simp add: openConfirmation_def Let_def api_defs el_upd)
  show "el_textContent (el (openConfirmation s fd) em) = od_email fd"
    using cm oi em r ne by (simp add: openConfirmation_def Let_def api_defs el_upd)
qed

section \<open>After the response\<close>

lemma loaded_frame: "mark_free P \<Longrightarrow> loading_free P \<Longrightarrow> keeps P s (loaded s)"
  unfolding loaded_def
  by (blast intro: keeps_trans keeps_emit validateForm_frame loading_frame)

lemma loaded_rest: "rest (loaded s) = rest (emit s PreventDefault)"
  by (simp add: loaded_def)

lemma loaded_sel [simp]:
  "trace (loaded s) = trace s @ [PreventDefault]" "formFields (loaded s) = formFields s"
  "previousFocus (loaded s) = previousFocus s" "activeElement (loaded s) = activeElement s"
  "has_closeOrderForm (loaded s) = has_closeOrderForm s"
  "has_pdfPreviewModule (loaded s) = has_pdfPreviewModule s"
  "has_formModule (loaded s) = has_formModule s" "timers (loaded s) = timers s"
  "activeModal (loaded s) = activeModal s" "body_overflow (loaded s) = body_overflow s"
  using rest_eqD[OF loaded_rest[of s]] by simp_all

lemma loaded_lookup [simp]: "getElementById (loaded s) i = getElementById s i"
  by (rule keeps_getElementById) (rule keeps_fixed(1), rule loaded_frame, simp_all)

lemma loaded_action: "getAttribute (loaded s) f ''action'' = getAttribute s f ''action''"
  using keepsD[OF loaded_frame[of "\<lambda>e. el_attrs e ''action''" s], of f]
  by (simp add: getAttribute_def mark_free_def loading_free_def)

lemma loaded_configured': "configured (loaded s) = configured s"
  by (simp add: loaded_def loaded_configured)

lemma submit_loaded:
  assumes "configured s"
  shows "submitFormData ev (loaded s) (getFormData ev s) =
     (if fetch_outcome ev = Response True
      then (Inr \<lparr>sr_success = True, sr_orderId = od_orderId (getFormData ev s)\<rparr>,
            (loaded s)\<lparr>trace := trace s @ [PreventDefault] @ order_request ev s\<rparr>)
      else (Inl (case fetch_outcome ev of NetworkFailure \<Rightarrow> TypeError ''Failed to fetch''
                 | Response ok \<Rightarrow> Error ''Form submission failed''),
            (loaded s)\<lparr>trace := trace s @ [PreventDefault] @ order_request ev s @
                                  [ConsoleError ''Submission error:'']\<rparr>))"
proof -
  obtain f a where f: "getElementById s ''shippingForm'' = Some f"
    and a: "getAttribute s f ''action'' = Some a"
    and ok: "a \<noteq> []" "\<not> str_includes a ''YOUR_FORM_ID''"
    using assms by (auto simp add: configured_def split: option.splits)
  have req: "order_request ev s = [Fetch a ''POST'' (order_body ev s f) [(''Accept'', ''application/json'')]]"
    by (simp add: order_request_def f a)
  show ?thesis
    using f a ok
    by (cases "fetch_outcome ev")
       (auto simp add: submitFormData_def Let_def loaded_action req order_body_def emit_def)
qed

lemma handleSubmit_loaded:
  assumes "\<not> spam_detected s" "fst (validateForm s)"
  shows "handleSubmit ev s =
     setSubmitButtonLoading
       (case submitFormData ev (loaded s) (getFormData ev s) of
          (Inl err, s') \<Rightarrow> emit s' (Alert failure_alert)
        | (Inr res, s') \<Rightarrow>
            (case on_success s' (getFormData ev s) of
               (Some err, s'') \<Rightarrow> emit s'' (Alert failure_alert)
             | (None, s'') \<Rightarrow> s''))
       False"
  by (simp add: handleSubmit_valid[OF assms] Let_def loaded_def)

lemma on_success_rest:
  "trace (snd (on_success x fd)) = trace x"
  by (simp add: on_success_def Let_def api_defs setTimeout_def split: option.splits)

lemma on_success_frame: "keeps fixed x (snd (on_success x fd))"
proof -
  have a: "keeps fixed x (setAttribute x m k v)" for m k v
    by (simp add: api_defs keeps_upd fixed_def)
  have c: "keeps fixed y (closeOrderForm y)" for y
    by (rule closeOrderForm_frame) (simp_all add: fixed_def)
  have p: "keeps fixed y (openConfirmation y fd)" for y
    by (rule openConfirmation_frame) (simp_all add: fixed_def)
  have cp: "keeps fixed y (openConfirmation (closeOrderForm y) fd)" for y
    using c p by (blast intro: keeps_trans)
  have "keeps fixed x (openConfirmation (closeOrderForm (setAttribute x m k v)) fd)" for m k v
    using a[of m k v] cp[of "setAttribute x m k v"] by (rule keeps_trans)
  then show ?thesis
    using a cp by (auto simp add: on_success_def Let_def split: option.splits)
qed

lemma on_success_effect:
  assumes h: "has_closeOrderForm x"
    and om: "getElementById x ''orderModal'' = Some om"
    and cm: "getElementById x ''confirmationModal'' = Some cm"
    and oi: "getElementById x ''orderIdDisplay'' = Some oi"
    and em: "getElementById x ''emailDisplay'' = Some em"
  shows "fst (on_success x fd) = None"
    "el_display (el (snd (on_success x fd)) om) = ''none''"
    "el_display (el (snd (on_success x fd)) cm) = ''flex''"
    "el_textContent (el (snd (on_success x fd)) oi) = od_orderId fd"
    "el_textContent (el (snd (on_success x fd)) em) = od_email fd"
    "previousFocus (snd (on_success x fd)) = None"
proof -
  define s4 where "s4 = setAttribute x om ''data-submitted'' ''true''"
  define s5 where "s5 = closeOrderForm s4"
  define s6 where "s6 = openConfirmation s5 fd"
  have k4: "keeps fixed x s4" by (simp add: s4_def api_defs keeps_upd fixed_def)
  have k5: "keeps fixed s4 s5"
    unfolding s5_def by (rule closeOrderForm_frame) (simp_all add: fixed_def)
  have l4: "getElementById s4 i = getElementById x i" for i
    using keeps_getElementById[OF keeps_fixed(1)[OF k4]] .
  have l5: "getElementById s5 i = getElementById x i" for i
    using keeps_getElementById[OF keeps_fixed(1)[OF k5]] l4 by simp
  have ne: "om \<noteq> cm" using getElementById_Some[OF om] getElementById_Some[OF cm] by auto
  have h4: "has_closeOrderForm s4" using h by (simp add: s4_def api_defs)
  have res: "on_success x fd =
      (None, if has_pdfPreviewModule s6 then setTimeout s6 UnlockFullPdf 2000 else s6)"
    using om h4 by (simp add: on_success_def Let_def s4_def s5_def s6_def)
  have d5: "el_display (el s5 om) = ''none''"
    unfolding s5_def by (rule closeOrderForm_display) (simp add: l4 om)
  have eff: "el_display (el s6 cm) = ''flex''" "el_display (el s6 om) = el_display (el s5 om)"
    "el_textContent (el s6 oi) = od_orderId fd" "el_textContent (el s6 em) = od_email fd"
    unfolding s6_def
    using openConfirmation_effect[where s=s5 and cm=cm and oi=oi and em=em and fd=fd] ne l5 cm oi em
    by simp_all
  have f5: "previousFocus s5 = None"
    unfolding s5_def using closeOrderForm_focus[of s4 om] l4 om by simp
  show "fst (on_success x fd) = None" by (simp add: res)
  show "el_display (el (snd (on_success x fd)) om) = ''none''"
    using eff d5 by (simp add: res)
  show "el_display (el (snd (on_success x fd)) cm) = ''flex''"
    using eff by (simp add: res)
  show "el_textContent (el (snd (on_success x fd)) oi) = od_orderId fd"
    using eff by (simp add: res)
  show "el_textContent (el (snd (on_success x fd)) em) = od_email fd"
    using eff by (simp add: res)
  show "previousFocus (snd (on_success x fd)) = None"
    using f5 by (simp add: res s6_def setTimeout_def)
qed

section \<open>What a submission emits\<close>

lemma on_success_fst:
  "fst (on_success x fd) =
     (if has_closeOrderForm x then None
      else Some (TypeError ''window.closeOrderForm is not a function''))"
  by (simp add: on_success_def Let_def api_defs split: option.splits)

lemma trace_update_sel [simp]:
  "has_closeOrderForm (x\<lparr>trace := t\<rparr>) = has_closeOrderForm x"
  "getElementById (x\<lparr>trace := t\<rparr>) i = getElementById x i"
  "el (x\<lparr>trace := t\<rparr>) k = el x k"
  "keeps P s (x\<lparr>trace := t\<rparr>) = keeps P s x"
  "keeps P (x\<lparr>trace := t\<rparr>) y = keeps P x y"
  "previousFocus (x\<lparr>trace := t\<rparr>) = previousFocus x"
  "activeElement (x\<lparr>trace := t\<rparr>) = activeElement x"
  by (simp_all add: getElementById_def el_def keeps_def)

lemma handleSubmit_trace:
  assumes "\<not> spam_detected s" "fst (validateForm s)" "configured s"
  shows "trace (handleSubmit ev s) =
     trace s @ [PreventDefault] @ order_request ev s @
       (if fetch_outcome ev = Response True
        then (if has_closeOrderForm s then [] else [Alert failure_alert])
        else [ConsoleError ''Submission error:'', Alert failure_alert])"
proof (cases "fetch_outcome ev = Response True")
  case True
  define T where "T = (loaded s)\<lparr>trace := trace s @ [PreventDefault] @ order_request ev s\<rparr>"
  obtain e x where os: "on_success T (getFormData ev s) = (e, x)"
    by (cases "on_success T (getFormData ev s)")
  have e: "e = (if has_closeOrderForm s then None
      else Some (TypeError ''window.closeOrderForm is not a function''))"
    using on_success_fst[of T "getFormData ev s"] os by (simp add: T_def)
  have x: "trace x = trace s @ [PreventDefault] @ order_request ev s"
    using on_success_rest[of T "getFormData ev s"] os by (simp add: T_def)
  have "handleSubmit ev s =
      setSubmitButtonLoading (case (e, x) of (Some err, s'') \<Rightarrow> emit s'' (Alert failure_alert)
        | (None, s'') \<Rightarrow> s'') False"
    unfolding handleSubmit_loaded[OF assms(1,2)] submit_loaded[OF assms(3)]
    using True os by (simp add: T_def)
  then show ?thesis
    using True e x by simp
next
  case False
  then show ?thesis
    by (simp add: handleSubmit_loaded[OF assms(1,2)] submit_loaded[OF assms(3)])
qed

lemma order_request_configured:
  "configured s \<Longrightarrow> list_ex is_Fetch (order_request ev s) \<and> length (order_request ev s) = 1"
  by (auto simp add: configured_def order_request_def is_Fetch_def split: option.splits)

lemma handleSubmit_transmits:
  assumes "\<not> spam_detected s" "fst (validateForm s)" "configured s"
  shows "transmits s (handleSubmit ev s)"
  using order_request_configured[OF assms(3), of ev]
  by (simp add: transmits_def emitted_def handleSubmit_trace[OF assms])

lemma spam_never_transmits: "spam_detected s \<Longrightarrow> \<not> transmits s (handleSubmit ev s)"
  by (simp add: handleSubmit_spam spam_abort_def transmits_def emitted_def is_Fetch_def)

lemma invalid_never_transmits:
  "\<not> spam_detected s \<Longrightarrow> \<not> fst (validateForm s) \<Longrightarrow> \<not> transmits s (handleSubmit ev s)"
  by (simp add: handleSubmit_invalid transmits_def emitted_def is_Fetch_def)

lemma passes_named: "passes s fld \<Longrightarrow> named_required_ok s fld"
  by (cases fld)
     (auto simp add: passes_def named_required_ok_def validateField_verdict required_names_def)

lemma passes_key: "passes s fld \<Longrightarrow> not_exempt s fld \<Longrightarrow> fst (validateField s fld)"
proof (cases fld)
  case None
  then show ?thesis by (simp add: validateField_def)
next
  case (Some r)
  assume "passes s fld" "not_exempt s fld"
  then show ?thesis using Some by (simp add: passes_def not_exempt_def validateField_verdict)
qed

lemma required_among_values: "set (required_fields ff) \<subseteq> set (Object_values ff)"
  by (auto simp add: required_fields_def Object_values_def)

text \<open>
  Claim C1. A request is sent during \<^verbatim>\<open>handleSubmit\<close> only if the decoy is present and
  empty once trimmed and every required field passes validation: every cached field
  that bears one of the ten required names, and, where no element cached under a
  required key bears one of the two exempted names, the field under each required key.
\<close>

theorem transmission_only_if_valid:
  assumes "transmits s (handleSubmit ev s)"
  shows "decoy_empty s \<and>
         list_all (named_required_ok s) (Object_values (formFields s)) \<and>
         (required_not_exempt s \<longrightarrow>
            list_all (\<lambda>fld. fst (validateField s fld)) (required_fields (formFields s)))"
proof -
  have ns: "\<not> spam_detected s" using assms spam_never_transmits by blast
  then have v: "fst (validateForm s)" using assms invalid_never_transmits by blast
  then have p: "list_all (passes s) (Object_values (formFields s))"
    by (simp add: validateForm_verdict)
  have d: "decoy_empty s"
    using ns by (simp add: spam_detected_def decoy_empty_def split: option.splits)
  have n: "list_all (named_required_ok s) (Object_values (formFields s))"
    using p passes_named by (auto simp add: list_all_iff)
  have k: "list_all (\<lambda>fld. fst (validateField s fld)) (required_fields (formFields s))"
    if "required_not_exempt s"
    using that p passes_key required_among_values[of "formFields s"]
    by (auto simp add: list_all_iff required_not_exempt_def)
  from d n k show ?thesis by blast
qed

section \<open>More facts about the sample pages\<close>

lemma order_page_el:
  "el (order_page a f g) k = order_doc a f g ! k"
  "formFields (order_page a f g) = order_fields"
  "has_closeOrderForm (order_page a f g)"
  "trace (order_page a f g) = []"
  "doc (order_page a f g) = order_doc a f g"
  by (simp_all add: order_page_def page_def el_def)

lemma order_page_decoy:
  "spam_detected (order_page a f g) = (trim g \<noteq> [])"
  "decoy_empty (order_page a f g) = (trim g = [])"
  by (simp_all add: spam_detected_def decoy_empty_def order_page_el order_fields_def
      order_doc_nth control_def node_def)

lemma order_page_lookup:
  "getElementById (order_page a f g) ''shippingForm'' = Some 2"
  "getElementById (order_page a f g) ''orderModal'' = Some 1"
  "getElementById (order_page a f g) ''submitOrderBtn'' = Some 16"
  "getElementById (order_page a f g) ''confirmationModal'' = Some 19"
  "getElementById (order_page a f g) ''orderIdDisplay'' = Some 20"
  "getElementById (order_page a f g) ''emailDisplay'' = Some 21"
  by (simp_all add: getElementById_def order_page_el order_doc_def control_def node_def)

lemma order_page_action: "getAttribute (order_page a f g) 2 ''action'' = Some a"
  by (simp add: getAttribute_def order_page_el order_doc_def)

lemma good_action:
  "\<not> str_includes ''https://formspree.io/f/xabc1234'' ''YOUR_FORM_ID''"
  by simp

lemma placeholder_action:
  "str_includes ''https://formspree.io/f/YOUR_FORM_ID'' ''YOUR_FORM_ID''"
  by simp

lemma order_page_configured:
  "configured (order_page ''https://formspree.io/f/xabc1234'' f g)"
  "\<not> configured (order_page ''https://formspree.io/f/YOUR_FORM_ID'' f g)"
  using good_action placeholder_action
  by (simp_all add: configured_def order_page_lookup order_page_action)

lemma order_page_not_exempt: "required_not_exempt (order_page a f g)"
  by (simp add: required_not_exempt_def required_fields_def not_exempt_def order_page_el
      order_fields_def order_doc_nth control_def node_def)

section \<open>The claims about spam and transmission\<close>

theorem transmission_only_if_valid_witness:
  "transmits (order_page ''https://formspree.io/f/xabc1234'' ''Ali'' [])
     (handleSubmit (sample_env (Response True))
        (order_page ''https://formspree.io/f/xabc1234'' ''Ali'' [])) \<and>
   decoy_empty (order_page ''https://formspree.io/f/xabc1234'' ''Ali'' []) \<and>
   required_not_exempt (order_page ''https://formspree.io/f/xabc1234'' ''Ali'' []) \<and>
   list_all (\<lambda>fld. fst (validateField (order_page ''https://formspree.io/f/xabc1234'' ''Ali'' []) fld))
     (required_fields (formFields (order_page ''https://formspree.io/f/xabc1234'' ''Ali'' [])))"
proof -
  let ?s = "order_page ''https://formspree.io/f/xabc1234'' ''Ali'' []"
  have tr: "transmits ?s (handleSubmit (sample_env (Response True)) ?s)"
    by (rule handleSubmit_transmits)
       (simp_all add: order_page_decoy trims order_page_valid order_page_configured)
  show ?thesis
    using transmission_only_if_valid[OF tr] tr order_page_not_exempt by simp
qed

text \<open>
  Claim C2, as amended. When the decoy's value, once trimmed, is not empty,
  \<^verbatim>\<open>handleSubmit\<close> leaves the page as it was but for two events of the trace, the
  prevented default and the console warning: no validation has run, no request has
  been sent, nothing is shown to the user.
\<close>

theorem decoy_filled_aborts:
  assumes "ff_gotcha (formFields s) = Some g" "trim (el_value (el s g)) \<noteq> []"
  shows "handleSubmit ev s = s\<lparr>trace := trace s @ [PreventDefault, ConsoleWarn ''Spam detected'']\<rparr>"
proof -
  have "spam_detected s" using assms by (simp add: spam_detected_def)
  then show ?thesis by (simp add: handleSubmit_spam spam_abort_def)
qed

theorem decoy_filled_aborts_witness:
  "ff_gotcha (formFields (order_page ''https://formspree.io/f/xabc1234'' ''Ali'' ''bot'')) = Some 15 \<and>
   trim (el_value (el (order_page ''https://formspree.io/f/xabc1234'' ''Ali'' ''bot'') 15)) = ''bot'' \<and>
   handleSubmit (sample_env (Response True)) (order_page ''https://formspree.io/f/xabc1234'' ''Ali'' ''bot'') =
     (order_page ''https://formspree.io/f/xabc1234'' ''Ali'' ''bot'')
       \<lparr>trace := [PreventDefault, ConsoleWarn ''Spam detected'']\<rparr>"
proof -
  let ?s = "order_page ''https://formspree.io/f/xabc1234'' ''Ali'' ''bot''"
  have g: "ff_gotcha (formFields ?s) = Some 15"
    by (simp add: order_page_el order_fields_def)
  have t: "trim (el_value (el ?s 15)) = ''bot''"
    by (simp add: order_page_el order_doc_nth control_def node_def trim_def is_space_def)
  have n: "trim (el_value (el ?s 15)) \<noteq> []" using t by simp
  show ?thesis
    using decoy_filled_aborts[OF g n, of "sample_env (Response True)"] g t
    by (simp add: order_page_el)
qed

text \<open>
  A decoy that holds a single space is not empty, yet its trimmed value is: the
  submission is validated and sent.
\<close>

theorem blank_decoy_is_sent:
  "el_value (el (order_page ''https://formspree.io/f/xabc1234'' ''Ali'' '' '') 15) = '' '' \<and>
   ff_gotcha (formFields (order_page ''https://formspree.io/f/xabc1234'' ''Ali'' '' '')) = Some 15 \<and>
   transmits (order_page ''https://formspree.io/f/xabc1234'' ''Ali'' '' '')
     (handleSubmit (sample_env (Response True))
        (order_page ''https://formspree.io/f/xabc1234'' ''Ali'' '' ''))"
proof -
  let ?s = "order_page ''https://formspree.io/f/xabc1234'' ''Ali'' '' ''"
  have tr: "transmits ?s (handleSubmit (sample_env (Response True)) ?s)"
    by (rule handleSubmit_transmits)
       (simp_all add: order_page_decoy trims order_page_valid order_page_configured)
  show ?thesis
    using tr by (simp add: order_page_el order_fields_def order_doc_nth control_def node_def)
qed

text \<open>
  Claim C10. When the document has no element named \<^verbatim>\<open>_gotcha\<close>, \<^verbatim>\<open>init\<close> caches
  \<^verbatim>\<open>null\<close> for the decoy; and with \<^verbatim>\<open>null\<close> cached, \<^verbatim>\<open>handleSubmit\<close> takes every
  submission for spam: the page is left as it was but for the prevented default and the
  console warning, whatever the fields hold.
\<close>

theorem missing_decoy_aborts:
  "(querySelector_name s0 ''_gotcha'' = None \<longrightarrow> ff_gotcha (formFields (form_init s0)) = None) \<and>
   (ff_gotcha (formFields s) = None \<longrightarrow>
      handleSubmit ev s = s\<lparr>trace := trace s @ [PreventDefault, ConsoleWarn ''Spam detected'']\<rparr>)"
proof -
  have "handleSubmit ev s = s\<lparr>trace := trace s @ [PreventDefault, ConsoleWarn ''Spam detected'']\<rparr>"
    if "ff_gotcha (formFields s) = None"
  proof -
    have "spam_detected s" using that by (simp add: spam_detected_def)
    then show ?thesis by (simp add: handleSubmit_spam spam_abort_def)
  qed
  then show ?thesis by (simp add: form_init_def)
qed

theorem missing_decoy_aborts_witness:
  "querySelector_name bare_page ''_gotcha'' = None \<and>
   ff_gotcha (formFields (form_init bare_page)) = None \<and>
   fst (validateForm (form_init bare_page)) \<and>
   handleSubmit (sample_env (Response True)) (form_init bare_page) =
     (form_init bare_page)\<lparr>trace := [PreventDefault, ConsoleWarn ''Spam detected'']\<rparr>"
proof -
  have q: "querySelector_name bare_page ''_gotcha'' = None"
    by (simp add: querySelector_name_def bare_page_def page_def control_def node_def)
  have fi: "form_init bare_page =
      bare_page\<lparr>formFields := blank_fields\<lparr>ff_firstName := Some 0\<rparr>\<rparr>"
    by (simp add: form_init_def getElementById_def querySelector_name_def bare_page_def page_def
        control_def node_def blank_fields_def)
  have v: "fst (validateForm (form_init bare_page))"
    unfolding fi
    by (simp add: validateForm_verdict Object_values_def blank_fields_def passes_def el_def
        bare_page_def page_def control_def node_def field_ok_def field_rules_def name_ok trims)
  have t: "trace (form_init bare_page) = []"
    by (simp add: form_init_def bare_page_def page_def)
  show ?thesis
    using missing_decoy_aborts[of bare_page "form_init bare_page" "sample_env (Response True)"] q v t
    by simp
qed

text \<open>
  Claim C5. With no action, or with the placeholder in it, \<^verbatim>\<open>submitFormData\<close> throws
  \<^verbatim>\<open>FORMSPREE_NOT_CONFIGURED\<close> after one alert and before any request. Its only caller
  then adds the alert of a failed transmission: a valid submission on an unconfigured
  form shows the setup message and then the generic message.
\<close>

theorem unconfigured_shows_both_alerts:
  assumes "\<not> spam_detected s" "fst (validateForm s)" "\<not> configured s"
  shows "submitFormData ev s fd =
           (Inl (Error ''FORMSPREE_NOT_CONFIGURED''), emit s (Alert config_alert)) \<and>
         emitted s (handleSubmit ev s) =
           [PreventDefault, Alert config_alert, Alert failure_alert]"
  using assms by (simp add: submitFormData_unconfigured handleSubmit_unconfigured)

theorem unconfigured_shows_both_alerts_witness:
  "\<not> configured (order_page ''https://formspree.io/f/YOUR_FORM_ID'' ''Ali'' []) \<and>
   emitted (order_page ''https://formspree.io/f/YOUR_FORM_ID'' ''Ali'' [])
     (handleSubmit (sample_env (Response True))
        (order_page ''https://formspree.io/f/YOUR_FORM_ID'' ''Ali'' [])) =
     [PreventDefault,
      Alert ''Formspree not configured. Update YOUR_FORM_ID in form action attribute.'',
      Alert ''Order submission failed. Please try again or contact us directly.'']"
proof -
  let ?s = "order_page ''https://formspree.io/f/YOUR_FORM_ID'' ''Ali'' []"
  have a: "\<not> spam_detected ?s" by (simp add: order_page_decoy trims)
  have b: "fst (validateForm ?s)" by (simp add: order_page_valid)
  have c: "\<not> configured ?s" by (rule order_page_configured)
  show ?thesis
    using unconfigured_shows_both_alerts[OF a b c, of "sample_env (Response True)"] c
    by (simp add: config_alert_def failure_alert_def)
qed

section \<open>Opening the order form\<close>

lemma spam_detected_keeps:
  assumes "keeps el_value x y" "formFields y = formFields x"
  shows "spam_detected y = spam_detected x"
  using keepsD[OF assms(1)] by (simp add: spam_detected_def assms(2) cong: option.case_cong)

lemma validateForm_verdict_keeps:
  assumes "keeps (\<lambda>e. (el_name e, field_ok e)) x y" "formFields y = formFields x"
  shows "fst (validateForm y) = fst (validateForm x)"
proof -
  have "passes y fld = passes x fld" for fld
    using keepsD[OF assms(1)] by (cases fld) (auto simp add: passes_def)
  then show ?thesis by (simp add: validateForm_verdict assms(2) list_all_iff)
qed

lemma outside_button_keeps:
  assumes "keeps fixed x y"
  shows "outside_button y k = outside_button x k"
  using keepsD[OF keeps_fixed(3)[OF assms], of k] keeps_getElementById[OF keeps_fixed(1)[OF assms]]
  by (simp add: outside_button_def cong: option.case_cong)

lemma openOrderForm_frame:
  assumes "\<And>e d. P (e\<lparr>el_display := d\<rparr>) = P e"
    "\<And>e v. P (e\<lparr>el_attrs := (el_attrs e)(''data-cleanup-fn'' \<mapsto> v)\<rparr>) = P e"
  shows "keeps P s (openOrderForm s)"
  using assms
  by (auto simp add: openOrderForm_def Let_def api_defs split: option.splits intro!: keeps_step)

lemma openOrderForm_sel [simp]:
  "formFields (openOrderForm s) = formFields s" "trace (openOrderForm s) = trace s"
  "has_closeOrderForm (openOrderForm s) = has_closeOrderForm s"
  "has_formModule (openOrderForm s) = has_formModule s"
  "has_pdfPreviewModule (openOrderForm s) = has_pdfPreviewModule s"
  "activeElement (openOrderForm s) = activeElement s"
  by (simp_all add: openOrderForm_def Let_def api_defs setTimeout_def split: option.splits)

lemma openOrderForm_effect:
  assumes "getElementById s ''orderModal'' = Some m"
  shows "previousFocus (openOrderForm s) = Some (activeElement s)"
    "el_display (el (openOrderForm s) m) = ''flex''"
    "k \<noteq> m \<Longrightarrow> el_display (el (openOrderForm s) k) = el_display (el s k)"
    "timers (openOrderForm s) = timers s @ [(FocusField (getElementById s ''firstName''), 100)]"
  using assms getElementById_Some[OF assms]
  by (simp_all add: openOrderForm_def Let_def api_defs setTimeout_def el_upd el_def upd_def)

lemma focused_sel [simp]:
  "getElementById (x\<lparr>activeElement := a\<rparr>) i = getElementById x i"
  "spam_detected (x\<lparr>activeElement := a\<rparr>) = spam_detected x"
  "configured (x\<lparr>activeElement := a\<rparr>) = configured x"
  "passes (x\<lparr>activeElement := a\<rparr>) = passes x"
  "outside_button (x\<lparr>activeElement := a\<rparr>) k = outside_button x k"
  by (simp_all add: getElementById_def spam_detected_def configured_def getAttribute_def
      passes_def outside_button_def fun_eq_iff cong: option.case_cong)

lemma focused_valid [simp]: "fst (validateForm (x\<lparr>activeElement := a\<rparr>)) = fst (validateForm x)"
  by (simp add: validateForm_verdict)

lemma opened_page_facts:
  "spam_detected (opened_page a f g) = spam_detected (order_page a f g)"
  "fst (validateForm (opened_page a f g)) = fst (validateForm (order_page a f g))"
  "configured (opened_page a f g) = configured (order_page a f g)"
  "getElementById (opened_page a f g) i = getElementById (order_page a f g) i"
  "outside_button (opened_page a f g) k = outside_button (order_page a f g) k"
  "has_closeOrderForm (opened_page a f g)"
  "previousFocus (opened_page a f g) = Some (Element 0)"
  "activeElement (opened_page a f g) = Element 0"
  "trace (opened_page a f g) = []"
proof -
  let ?b = "(order_page a f g)\<lparr>activeElement := Element 0\<rparr>"
  have k: "keeps P ?b (opened_page a f g)"
    if "\<And>e d. P (e\<lparr>el_display := d\<rparr>) = P e"
      "\<And>e v. P (e\<lparr>el_attrs := (el_attrs e)(''data-cleanup-fn'' \<mapsto> v)\<rparr>) = P e" for P
    unfolding opened_page_def using that by (rule openOrderForm_frame)
  show "spam_detected (opened_page a f g) = spam_detected (order_page a f g)"
    using spam_detected_keeps[OF k[of el_value]] by (simp add: opened_page_def)
  show "fst (validateForm (opened_page a f g)) = fst (validateForm (order_page a f g))"
    using validateForm_verdict_keeps[OF k[of "\<lambda>e. (el_name e, field_ok e)"]]
    by (simp add: opened_page_def field_ok_def)
  show "configured (opened_page a f g) = configured (order_page a f g)"
    using configured_keeps[OF k[of "\<lambda>e. (el_id e, el_attrs e ''action'')"]] by simp
  show "getElementById (opened_page a f g) i = getElementById (order_page a f g) i"
    using keeps_getElementById[OF k[of el_id]] by simp
  show "outside_button (opened_page a f g) k = outside_button (order_page a f g) k"
    using outside_button_keeps[OF k[of fixed]] by (simp add: fixed_def)
  show "has_closeOrderForm (opened_page a f g)"
    by (simp add: opened_page_def order_page_el)
  show "previousFocus (opened_page a f g) = Some (Element 0)"
    unfolding opened_page_def
    using openOrderForm_effect(1)[of ?b 1] by (simp add: order_page_lookup)
  show "activeElement (opened_page a f g) = Element 0"
    by (simp add: opened_page_def)
  show "trace (opened_page a f g) = []"
    by (simp add: opened_page_def order_page_el)
qed

lemma opened_page_value: "el_value (el (opened_page a f g) k) = el_value (order_doc a f g ! k)"
proof -
  have "keeps el_value ((order_page a f g)\<lparr>activeElement := Element 0\<rparr>) (opened_page a f g)"
    unfolding opened_page_def by (rule openOrderForm_frame) simp_all
  from keepsD[OF this, of k] show ?thesis by (simp add: order_page_el)
qed

lemma opened_page_modals:
  "el_display (el (opened_page a f g) 1) = ''flex''"
  "el_display (el (opened_page a f g) 19) = ''none''"
  "outside_button (order_page a f g) 1" "outside_button (order_page a f g) 19"
proof -
  let ?b = "(order_page a f g)\<lparr>activeElement := Element 0\<rparr>"
  have m: "getElementById ?b ''orderModal'' = Some 1" by (simp add: order_page_lookup)
  show "el_display (el (opened_page a f g) 1) = ''flex''"
    unfolding opened_page_def using openOrderForm_effect(2)[OF m] .
  have "el_display (el (opened_page a f g) 19) = el_display (el ?b 19)"
    unfolding opened_page_def using openOrderForm_effect(3)[OF m, of 19] by simp
  then show "el_display (el (opened_page a f g) 19) = ''none''"
    by (simp add: el_def order_page_el order_doc_def node_def)
  show "outside_button (order_page a f g) 1" "outside_button (order_page a f g) 19"
    by (simp_all add: outside_button_def order_page_lookup order_page_el order_doc_def node_def)
qed

section \<open>The claims about the response\<close>

lemma loading_display_outside:
  "outside_button x k \<Longrightarrow> el_display (el (setSubmitButtonLoading x l) k) = el_display (el x k)"
  by (cases "getElementById x ''submitOrderBtn''")
     (simp_all add: outside_button_def loading_none loading_display)

lemma loaded_display:
  assumes "outside_button s k"
  shows "el_display (el (loaded s) k) = el_display (el s k)"
proof -
  let ?v = "snd (validateForm (emit s PreventDefault))"
  have kf: "keeps fixed s ?v"
    using validateForm_frame[of fixed "emit s PreventDefault"] keeps_emit(1)[of fixed s PreventDefault]
    by (blast intro: keeps_trans fixed_free)
  have kd: "keeps el_display s ?v"
    using validateForm_frame[of el_display "emit s PreventDefault"]
      keeps_emit(1)[of el_display s PreventDefault]
    by (blast intro: keeps_trans display_free)
  have "outside_button ?v k" using assms outside_button_keeps[OF kf] by simp
  then have "el_display (el (loaded s) k) = el_display (el ?v k)"
    unfolding loaded_def by (rule loading_display_outside)
  then show ?thesis using keepsD[OF kd, of k] by simp
qed

lemma value_free [simp]:
  "mark_free (\<lambda>e. (el_value e, el_checked e))" "loading_free (\<lambda>e. (el_value e, el_checked e))"
  "loading_free el_textContent"
  by (simp_all add: mark_free_def loading_free_def)

lemma handleSubmit_failed_state:
  assumes "\<not> spam_detected s" "fst (validateForm s)" "configured s"
    "fetch_outcome ev \<noteq> Response True"
  shows "handleSubmit ev s =
     setSubmitButtonLoading
       ((loaded s)\<lparr>trace := trace s @ [PreventDefault] @ order_request ev s @
                              [ConsoleError ''Submission error:'', Alert failure_alert]\<rparr>) False"
  using assms(4)
  by (simp add: handleSubmit_loaded[OF assms(1,2)] submit_loaded[OF assms(3)] emit_def)

text \<open>
  Claim C4. A valid submission whose request fails (a response that is not ok, or no
  response) ends with the alert of a failed submission. The value and the checkedness
  of every element are what they were; the display of every element outside the submit
  button, the modals among them, is what it was, so the order form stays open and the
  confirmation stays closed; the UI module's variables are untouched; and the submit
  button, when the page has one, is enabled.
\<close>

theorem failed_request_recoverable:
  assumes "\<not> spam_detected s" "fst (validateForm s)" "configured s"
    "fetch_outcome ev \<noteq> Response True"
  shows "emitted s (handleSubmit ev s) =
           [PreventDefault] @ order_request ev s @
           [ConsoleError ''Submission error:'', Alert failure_alert] \<and>
         (\<forall>k. el_value (el (handleSubmit ev s) k) = el_value (el s k) \<and>
              el_checked (el (handleSubmit ev s) k) = el_checked (el s k)) \<and>
         (\<forall>k. outside_button s k \<longrightarrow>
              el_display (el (handleSubmit ev s) k) = el_display (el s k)) \<and>
         activeModal (handleSubmit ev s) = activeModal s \<and>
         previousFocus (handleSubmit ev s) = previousFocus s \<and>
         (\<forall>b. getElementById s ''submitOrderBtn'' = Some b \<longrightarrow>
              \<not> el_disabled (el (handleSubmit ev s) b))"
proof -
  define T where "T = (loaded s)\<lparr>trace := trace s @ [PreventDefault] @ order_request ev s @
                              [ConsoleError ''Submission error:'', Alert failure_alert]\<rparr>"
  have hs: "handleSubmit ev s = setSubmitButtonLoading T False"
    unfolding T_def by (rule handleSubmit_failed_state[OF assms])
  have tr: "trace (handleSubmit ev s) = trace s @ [PreventDefault] @ order_request ev s @
      [ConsoleError ''Submission error:'', Alert failure_alert]"
    by (simp add: hs) (simp add: T_def)
  have kv: "keeps (\<lambda>e. (el_value e, el_checked e)) s (handleSubmit ev s)"
  proof -
    have "keeps (\<lambda>e. (el_value e, el_checked e)) s T"
      unfolding T_def using loaded_frame[of "\<lambda>e. (el_value e, el_checked e)" s] by simp
    moreover have "keeps (\<lambda>e. (el_value e, el_checked e)) T (setSubmitButtonLoading T False)"
      by (rule loading_frame) simp
    ultimately show ?thesis unfolding hs by (rule keeps_trans)
  qed
  have kf: "keeps fixed s T"
    unfolding T_def using loaded_frame[of fixed s] by simp
  have disp: "el_display (el (handleSubmit ev s) k) = el_display (el s k)" if "outside_button s k" for k
  proof -
    have "outside_button T k" using that outside_button_keeps[OF kf] by simp
    then have "el_display (el (handleSubmit ev s) k) = el_display (el T k)"
      unfolding hs by (rule loading_display_outside)
    also have "\<dots> = el_display (el (loaded s) k)" by (simp add: T_def)
    also have "\<dots> = el_display (el s k)" using that by (rule loaded_display)
    finally show ?thesis .
  qed
  have vars: "activeModal (handleSubmit ev s) = activeModal s"
    "previousFocus (handleSubmit ev s) = previousFocus s"
  proof -
    have "rest (setSubmitButtonLoading T False) = rest T" by simp
    then have "activeModal (setSubmitButtonLoading T False) = activeModal T"
      "previousFocus (setSubmitButtonLoading T False) = previousFocus T"
      by (rule rest_eqD)+
    then show "activeModal (handleSubmit ev s) = activeModal s"
      "previousFocus (handleSubmit ev s) = previousFocus s"
      by (simp_all add: hs T_def)
  qed
  have btn: "\<not> el_disabled (el (handleSubmit ev s) b)" if "getElementById s ''submitOrderBtn'' = Some b" for b
  proof -
    have "getElementById T ''submitOrderBtn'' = Some b"
      using that keeps_getElementById[OF keeps_fixed(1)[OF kf]] by simp
    then show ?thesis unfolding hs using loading_disabled[of T b False] by simp
  qed
  show ?thesis
    using tr keepsD[OF kv] disp vars btn by (simp add: emitted_def)
qed

theorem failed_request_recoverable_witness:
  "fetch_outcome (sample_env (Response False)) \<noteq> Response True \<and>
   list_ex (\<lambda>e. e = Alert ''Order submission failed. Please try again or contact us directly.'')
     (emitted (opened_page ''https://formspree.io/f/xabc1234'' ''Ali'' [])
        (handleSubmit (sample_env (Response False))
           (opened_page ''https://formspree.io/f/xabc1234'' ''Ali'' []))) \<and>
   el_value (el (handleSubmit (sample_env (Response False))
           (opened_page ''https://formspree.io/f/xabc1234'' ''Ali'' [])) 3) = ''Ali'' \<and>
   el_display (el (handleSubmit (sample_env (Response False))
           (opened_page ''https://formspree.io/f/xabc1234'' ''Ali'' [])) 1) = ''flex'' \<and>
   el_display (el (handleSubmit (sample_env (Response False))
           (opened_page ''https://formspree.io/f/xabc1234'' ''Ali'' [])) 19) = ''none'' \<and>
   \<not> el_disabled (el (handleSubmit (sample_env (Response False))
           (opened_page ''https://formspree.io/f/xabc1234'' ''Ali'' [])) 16)"
proof -
  let ?s = "opened_page ''https://formspree.io/f/xabc1234'' ''Ali'' []"
  let ?ev = "sample_env (Response False)"
  have a: "\<not> spam_detected ?s" by (simp add: opened_page_facts order_page_decoy trims)
  have b: "fst (validateForm ?s)" by (simp add: opened_page_facts order_page_valid)
  have c: "configured ?s" by (simp add: opened_page_facts order_page_configured)
  have d: "fetch_outcome ?ev \<noteq> Response True" by (simp add: sample_env_def)
  have o: "outside_button ?s 1" "outside_button ?s 19"
    using opened_page_modals(3,4)[of "''https://formspree.io/f/xabc1234''" "''Ali''" "[]"]
    by (simp_all only: opened_page_facts)
  have btn: "getElementById ?s ''submitOrderBtn'' = Some 16"
    by (simp add: opened_page_facts order_page_lookup)
  note r = failed_request_recoverable[OF a b c d]
  have al: "list_ex (\<lambda>e. e = Alert ''Order submission failed. Please try again or contact us directly.'')
     (emitted ?s (handleSubmit ?ev ?s))"
    using r by (simp add: failure_alert_def)
  have vals: "el_value (el ?s 3) = ''Ali''"
    by (simp add: opened_page_value order_doc_nth control_def node_def)
  from r have v: "el_value (el (handleSubmit ?ev ?s) 3) = el_value (el ?s 3)" by blast
  from r o have d1: "el_display (el (handleSubmit ?ev ?s) 1) = el_display (el ?s 1)" by blast
  from r o have d19: "el_display (el (handleSubmit ?ev ?s) 19) = el_display (el ?s 19)" by blast
  from r btn have nb: "\<not> el_disabled (el (handleSubmit ?ev ?s) 16)" by blast
  show ?thesis
    using d al v vals d1 d19 nb
      opened_page_modals(1,2)[of "''https://formspree.io/f/xabc1234''" "''Ali''" "[]"]
    by simp
qed

lemma map_of_filter_other:
  "n' \<noteq> n \<Longrightarrow> map_of (filter (\<lambda>p. fst p \<noteq> n) es) n' = map_of es n'"
  by (induction es) auto

lemma FormData_get_set_same: "FormData_get (FormData_set es n v) n = Some v"
  by (induction es n v rule: FormData_set.induct) (simp_all add: FormData_get_def)

lemma FormData_get_set_other:
  "n' \<noteq> n \<Longrightarrow> FormData_get (FormData_set es n v) n' = FormData_get es n'"
  by (induction es n v rule: FormData_set.induct)
     (simp_all add: FormData_get_def map_of_filter_other)

lemma order_request_entries:
  assumes "configured s"
  shows "map (\<lambda>b. (FormData_get b ''orderId'', FormData_get b ''_replyto''))
           (bodies (order_request ev s)) =
         [(Some (od_orderId (getFormData ev s)), Some (od_email (getFormData ev s)))]"
  using assms
  by (auto simp add: configured_def order_request_def bodies_def order_body_def
      FormData_get_set_same FormData_get_set_other split: option.splits)

text \<open>
  A valid submission that is sent and answered with an ok response, on a page where the
  UI module is loaded and the two modals and the two display slots exist (the modals
  not inside the submit button): what the page shows afterwards and what was sent.
\<close>

lemma handleSubmit_confirmed:
  assumes "\<not> spam_detected s" "fst (validateForm s)" "configured s"
    "fetch_outcome ev = Response True" "has_closeOrderForm s"
    "getElementById s ''orderModal'' = Some om"
    "getElementById s ''confirmationModal'' = Some cm"
    "getElementById s ''orderIdDisplay'' = Some oi"
    "getElementById s ''emailDisplay'' = Some em"
    "outside_button s om" "outside_button s cm"
  shows "el_display (el (handleSubmit ev s) om) = ''none'' \<and>
         el_display (el (handleSubmit ev s) cm) = ''flex'' \<and>
         el_textContent (el (handleSubmit ev s) oi) = od_orderId (getFormData ev s) \<and>
         el_textContent (el (handleSubmit ev s) em) = od_email (getFormData ev s) \<and>
         emitted s (handleSubmit ev s) = [PreventDefault] @ order_request ev s \<and>
         map (\<lambda>b. (FormData_get b ''orderId'', FormData_get b ''_replyto''))
           (bodies (order_request ev s)) =
           [(Some (od_orderId (getFormData ev s)), Some (od_email (getFormData ev s)))]"
proof -
  define T where "T = (loaded s)\<lparr>trace := trace s @ [PreventDefault] @ order_request ev s\<rparr>"
  define X where "X = snd (on_success T (getFormData ev s))"
  have hT: "has_closeOrderForm T" using assms(5) by (simp add: T_def)
  have lT: "getElementById T i = getElementById s i" for i by (simp add: T_def)
  note eff = on_success_effect[where x=T and fd="getFormData ev s" and om=om and cm=cm and oi=oi and em=em,
      OF hT, unfolded lT, OF assms(6-9), folded X_def]
  obtain e where os: "on_success T (getFormData ev s) = (e, X)"
    unfolding X_def by (cases "on_success T (getFormData ev s)") simp
  have e: "e = None" using eff(1) os by simp
  have hs: "handleSubmit ev s = setSubmitButtonLoading X False"
    unfolding handleSubmit_loaded[OF assms(1,2)] submit_loaded[OF assms(3)]
    using assms(4) os e by (simp add: T_def)
  have kT: "keeps fixed s T" unfolding T_def using loaded_frame[of fixed s] by simp
  have kX: "keeps fixed s X"
    using kT on_success_frame[of T "getFormData ev s"] unfolding X_def by (rule keeps_trans)
  have o: "outside_button X om" "outside_button X cm"
    using assms(10,11) outside_button_keeps[OF kX] by simp_all
  have d1: "el_display (el (handleSubmit ev s) om) = ''none''"
    unfolding hs using loading_display_outside[OF o(1), of False] eff(2) by simp
  have d2: "el_display (el (handleSubmit ev s) cm) = ''flex''"
    unfolding hs using loading_display_outside[OF o(2), of False] eff(3) by simp
  have kt: "keeps el_textContent X (setSubmitButtonLoading X False)"
    by (rule loading_frame) simp
  have t1: "el_textContent (el (handleSubmit ev s) oi) = od_orderId (getFormData ev s)"
    unfolding hs using keepsD[OF kt, of oi] eff(4) by simp
  have t2: "el_textContent (el (handleSubmit ev s) em) = od_email (getFormData ev s)"
    unfolding hs using keepsD[OF kt, of em] eff(5) by simp
  have tr: "emitted s (handleSubmit ev s) = [PreventDefault] @ order_request ev s"
    using handleSubmit_trace[OF assms(1-3), of ev] assms(4,5) by (simp add: emitted_def)
  show ?thesis
    using d1 d2 t1 t2 tr order_request_entries[OF assms(3), of ev] by simp
qed

lemma opened_page_fields [simp]: "formFields (opened_page a f g) = order_fields"
  by (simp add: opened_page_def order_page_el)

lemma sample_order_id:
  "generateOrderId 1700000000000 ''0.4fzyo82mvyr'' = ''RJ-1700000000000-4FZYO82''"
  by (simp add: generateOrderId_def random_token_def toUpperCase_def substring_def upper_char_def
      number_toString_def nat_toString.simps)

lemma opened_page_order:
  "od_orderId (getFormData (sample_env r) (opened_page a f g)) = ''RJ-1700000000000-4FZYO82''"
  "od_email (getFormData (sample_env r) (opened_page a f g)) = ''ali@example.com''"
  by (simp_all add: getFormData_def sample_env_def sample_order_id trimmed_value_def
      order_fields_def opened_page_value order_doc_nth control_def node_def trims)

section \<open>Trimming\<close>






section \<open>What the request carries\<close>


lemma loading_disabled_other:
  assumes "getElementById x ''submitOrderBtn'' \<noteq> Some k"
  shows "el_disabled (el (setSubmitButtonLoading x l) k) = el_disabled (el x k)"
  using assms
  by (auto simp add: setSubmitButtonLoading_def Let_def api_defs el_upd split: option.splits)








section \<open>Closing the confirmation\<close>

lemma handleSubmit_succeeded:
  assumes "\<not> spam_detected s" "fst (validateForm s)" "configured s"
    "fetch_outcome ev = Response True" "has_closeOrderForm s"
    "getElementById s ''orderModal'' = Some om"
    "getElementById s ''confirmationModal'' = Some cm"
    "getElementById s ''orderIdDisplay'' = Some oi"
    "getElementById s ''emailDisplay'' = Some em"
  obtains X where "handleSubmit ev s = setSubmitButtonLoading X False" "keeps fixed s X"
    "el_display (el X om) = ''none''" "el_display (el X cm) = ''flex''"
    "previousFocus X = None"
proof -
  define T where "T = (loaded s)\<lparr>trace := trace s @ [PreventDefault] @ order_request ev s\<rparr>"
  define X where "X = snd (on_success T (getFormData ev s))"
  have hT: "has_closeOrderForm T" using assms(5) by (simp add: T_def)
  have lT: "getElementById T i = getElementById s i" for i by (simp add: T_def)
  note eff = on_success_effect[where x=T and fd="getFormData ev s" and om=om and cm=cm and oi=oi and em=em,
      OF hT, unfolded lT, OF assms(6-9), folded X_def]
  obtain e where os: "on_success T (getFormData ev s) = (e, X)"
    unfolding X_def by (cases "on_success T (getFormData ev s)") simp
  have e: "e = None" using eff(1) os by simp
  have hs: "handleSubmit ev s = setSubmitButtonLoading X False"
    unfolding handleSubmit_loaded[OF assms(1,2)] submit_loaded[OF assms(3)]
    using assms(4) os e by (simp add: T_def)
  have kT: "keeps fixed s T" unfolding T_def using loaded_frame[of fixed s] by simp
  have kX: "keeps fixed s X"
    using kT on_success_frame[of T "getFormData ev s"] unfolding X_def by (rule keeps_trans)
  show ?thesis
    using that[OF hs kX eff(2) eff(3) eff(6)] .
qed

lemma loading_vars [simp]:
  "previousFocus (setSubmitButtonLoading x l) = previousFocus x"
  "activeElement (setSubmitButtonLoading x l) = activeElement x"
  using rest_eqD[OF loading_rest[of x l]] by simp_all

lemma closeConfirmation_unrestored:
  assumes "previousFocus y = None" "getElementById y ''confirmationModal'' = Some cm"
  shows "activeElement (closeConfirmation y) = activeElement y"
    "previousFocus (closeConfirmation y) = None"
    "el_display (el (closeConfirmation y) cm) = ''none''"
  using assms getElementById_Some[OF assms(2)]
  by (simp_all add: closeConfirmation_def Let_def api_defs el_upd)

text \<open>
  Claim C9. After a successful submission the UI module has already used up the
  element it had captured: \<^verbatim>\<open>closeOrderForm\<close>, called by the submit handler, has given
  it the focus and cleared \<^verbatim>\<open>previousFocus\<close>. When the confirmation is closed later,
  through the Escape key or through \<^verbatim>\<open>closeConfirmation\<close> itself, the modal is hidden
  but the focus stays on whatever element \<open>b\<close> holds it by then.
\<close>

theorem closing_confirmation_leaves_focus:
  assumes "\<not> spam_detected s" "fst (validateForm s)" "configured s"
    "fetch_outcome ev = Response True" "has_closeOrderForm s"
    "getElementById s ''orderModal'' = Some om"
    "getElementById s ''confirmationModal'' = Some cm"
    "getElementById s ''orderIdDisplay'' = Some oi"
    "getElementById s ''emailDisplay'' = Some em"
    "outside_button s om" "outside_button s cm"
  shows "previousFocus (handleSubmit ev s) = None \<and>
         handleEscape ((handleSubmit ev s)\<lparr>activeElement := Element b\<rparr>) ''Escape'' =
           closeConfirmation ((handleSubmit ev s)\<lparr>activeElement := Element b\<rparr>) \<and>
         el_display (el (closeConfirmation ((handleSubmit ev s)\<lparr>activeElement := Element b\<rparr>)) cm) =
           ''none'' \<and>
         activeElement (closeConfirmation ((handleSubmit ev s)\<lparr>activeElement := Element b\<rparr>)) =
           Element b"
proof -
  obtain X where hs: "handleSubmit ev s = setSubmitButtonLoading X False"
    and kX: "keeps fixed s X"
    and dX: "el_display (el X om) = ''none''" "el_display (el X cm) = ''flex''"
    and pX: "previousFocus X = None"
    using handleSubmit_succeeded[OF assms(1-9)] by metis
  let ?y = "(handleSubmit ev s)\<lparr>activeElement := Element b\<rparr>"
  have p: "previousFocus (handleSubmit ev s) = None" by (simp add: hs pX)
  have kh: "keeps fixed s (handleSubmit ev s)"
    unfolding hs using kX loading_frame[of fixed X False] by (blast intro: keeps_trans fixed_free)
  have l: "getElementById (handleSubmit ev s) i = getElementById s i" for i
    using keeps_getElementById[OF keeps_fixed(1)[OF kh]] by simp
  have o: "outside_button X om" "outside_button X cm"
    using assms(10,11) outside_button_keeps[OF kX] by simp_all
  have d: "el_display (el (handleSubmit ev s) om) = ''none''"
    "el_display (el (handleSubmit ev s) cm) = ''flex''"
    using loading_display_outside[OF o(1), of False] loading_display_outside[OF o(2), of False] dX
    by (simp_all add: hs)
  have esc: "handleEscape ?y ''Escape'' = closeConfirmation ?y"
    by (simp add: handleEscape_def Let_def shown_def l assms(6,7) d)
  have py: "previousFocus ?y = None" using p by simp
  have cy: "getElementById ?y ''confirmationModal'' = Some cm" using l assms(7) by simp
  show ?thesis
    using p esc closeConfirmation_unrestored[OF py cy] by simp
qed

theorem closing_confirmation_leaves_focus_witness:
  "previousFocus (opened_page ''https://formspree.io/f/xabc1234'' ''Ali'' []) = Some (Element 0) \<and>
   previousFocus (handleSubmit (sample_env (Response True))
      (opened_page ''https://formspree.io/f/xabc1234'' ''Ali'' [])) = None \<and>
   activeElement (closeConfirmation
      ((handleSubmit (sample_env (Response True))
          (opened_page ''https://formspree.io/f/xabc1234'' ''Ali'' []))
         \<lparr>activeElement := Element 22\<rparr>)) = Element 22"
proof -
  let ?s = "opened_page ''https://formspree.io/f/xabc1234'' ''Ali'' []"
  let ?ev = "sample_env (Response True)"
  have a: "\<not> spam_detected ?s" by (simp add: opened_page_facts order_page_decoy trims)
  have b: "fst (validateForm ?s)" by (simp add: opened_page_facts order_page_valid)
  have c: "configured ?s" by (simp add: opened_page_facts order_page_configured)
  have d: "fetch_outcome ?ev = Response True" by (simp add: sample_env_def)
  have h: "has_closeOrderForm ?s" by (rule opened_page_facts)
  have l: "getElementById ?s ''orderModal'' = Some 1" "getElementById ?s ''confirmationModal'' = Some 19"
    "getElementById ?s ''orderIdDisplay'' = Some 20" "getElementById ?s ''emailDisplay'' = Some 21"
    by (simp_all add: opened_page_facts order_page_lookup)
  have o: "outside_button ?s 1" "outside_button ?s 19"
    using opened_page_modals(3,4)[of "''https://formspree.io/f/xabc1234''" "''Ali''" "[]"]
    by (simp_all only: opened_page_facts)
  show ?thesis
    using closing_confirmation_leaves_focus[OF a b c d h l o, of 22]
    by (simp add: opened_page_facts)
qed

section \<open>The confirmation and the request\<close>

text \<open>
  The entry that \<^verbatim>\<open>FormData.get\<close> finds under a name is the one of the first control
  of that name, with the value the control has in the form.
\<close>

lemma map_of_first:
  "first_index (\<lambda>e. el_name e = n) d = Some k \<Longrightarrow> Q (d ! k) \<Longrightarrow>
   map_of (map (\<lambda>e. (el_name e, el_value e)) (filter Q d)) n = Some (el_value (d ! k))"
proof (induction d arbitrary: k)
  case Nil
  then show ?case by simp
next
  case (Cons x xs)
  show ?case
  proof (cases "el_name x = n")
    case True
    then show ?thesis using Cons.prems by simp
  next
    case False
    then obtain j where j: "first_index (\<lambda>e. el_name e = n) xs = Some j" "k = Suc j"
      using Cons.prems(1) by auto
    then have "map_of (map (\<lambda>e. (el_name e, el_value e)) (filter Q xs)) n = Some (el_value (xs ! j))"
      using Cons.IH[of j] Cons.prems(2) by simp
    then show ?thesis using False j by simp
  qed
qed

lemma keeps_querySelector_name:
  "keeps el_name s s' \<Longrightarrow> querySelector_name s' n = querySelector_name s n"
  unfolding querySelector_name_def keeps_def el_def
  by (rule first_index_cong) auto

lemma loaded_own_control:
  assumes "own_entry s f k"
  shows "f \<in> set (el_ancestors (el (loaded s) k)) \<and> submittable (el (loaded s) k) \<and>
         el_value (el (loaded s) k) = el_value (el s k)"
proof -
  let ?v = "snd (validateForm (emit s PreventDefault))"
  let ?P = "\<lambda>e. (el_name e, el_value e, el_type e, el_checked e, el_ancestors e)"
  have f: "f \<in> set (el_ancestors (el s k))"
    and sub: "submittable (el s k)" and nb: "getElementById s ''submitOrderBtn'' \<noteq> Some k"
    using assms by (simp_all add: own_entry_def)
  have kp: "keeps ?P s (loaded s)"
    by (rule loaded_frame) (simp_all add: mark_free_def loading_free_def)
  have "mark_free el_disabled" by (simp add: mark_free_def)
  then have kd: "keeps el_disabled s ?v"
    using validateForm_frame[of el_disabled "emit s PreventDefault"]
      keeps_emit(1)[of el_disabled s PreventDefault]
    by (blast intro: keeps_trans)
  have kf: "keeps fixed s ?v"
    using validateForm_frame[of fixed "emit s PreventDefault"] keeps_emit(1)[of fixed s PreventDefault]
    by (blast intro: keeps_trans fixed_free)
  have "getElementById ?v ''submitOrderBtn'' \<noteq> Some k"
    using nb keeps_getElementById[OF keeps_fixed(1)[OF kf]] by simp
  then have "el_disabled (el (loaded s) k) = el_disabled (el ?v k)"
    unfolding loaded_def by (rule loading_disabled_other)
  then have dis: "el_disabled (el (loaded s) k) = el_disabled (el s k)"
    using keepsD[OF kd, of k] by simp
  have same: "el_name (el (loaded s) k) = el_name (el s k)" "el_value (el (loaded s) k) = el_value (el s k)"
    "el_type (el (loaded s) k) = el_type (el s k)" "el_checked (el (loaded s) k) = el_checked (el s k)"
    "el_ancestors (el (loaded s) k) = el_ancestors (el s k)"
    using keepsD[OF kp, of k] by simp_all
  have "submittable (el (loaded s) k)" using sub same dis by (simp add: submittable_def)
  then show ?thesis using f same by simp
qed

lemma first_entry_sent:
  assumes "getElementById s ''shippingForm'' = Some f" "own_entry s f k" "configured s"
    "querySelector_name s n = Some k"
  shows "map (\<lambda>b. FormData_get b n) (bodies (order_request ev s)) = [Some (el_value (el s k))]"
proof -
  have kn: "keeps el_name s (loaded s)"
    by (rule loaded_frame) (simp_all add: mark_free_def loading_free_def)
  have q: "first_index (\<lambda>e. el_name e = n) (doc (loaded s)) = Some k"
    using assms(4) keeps_querySelector_name[OF kn, of n] by (simp add: querySelector_name_def)
  have nm: "el_name (el s k) = n"
    using first_index_Some[OF assms(4)[unfolded querySelector_name_def]] by (simp add: el_def)
  have n: "n \<noteq> ''orderId''" "n \<noteq> ''timestamp''" "n \<noteq> ''_replyto''"
    using assms(2) nm by (auto simp add: own_entry_def)
  note o = loaded_own_control[OF assms(2)]
  have "FormData_get (FormData_of (loaded s) f) n = Some (el_value (el (loaded s) k))"
    unfolding FormData_get_def FormData_of_def el_def
    using o by (intro map_of_first[OF q]) (simp add: el_def)
  then have "FormData_get (order_body ev s f) n = Some (el_value (el s k))"
    using n o by (simp add: order_body_def FormData_get_set_other)
  then show ?thesis
    using assms(1,3)
    by (auto simp add: configured_def order_request_def bodies_def split: option.splits)
qed

lemma opened_page_keeps:
  assumes "\<And>e d. P (e\<lparr>el_display := d\<rparr>) = P e"
    "\<And>e v. P (e\<lparr>el_attrs := (el_attrs e)(''data-cleanup-fn'' \<mapsto> v)\<rparr>) = P e"
  shows "keeps P (order_page a f g) (opened_page a f g)"
proof -
  have "keeps P ((order_page a f g)\<lparr>activeElement := Element 0\<rparr>) (opened_page a f g)"
    unfolding opened_page_def using assms by (rule openOrderForm_frame)
  then show ?thesis by simp
qed

lemma opened_page_other: "k \<noteq> 1 \<Longrightarrow> el (opened_page a f g) k = order_doc a f g ! k"
  by (simp add: opened_page_def openOrderForm_def order_page_lookup Let_def api_defs el_upd
      order_page_el)

lemma opened_page_email:
  "querySelector_name (opened_page a f g) ''email'' = Some 6"
  "own_entry (opened_page a f g) 2 6"
proof -
  have kn: "keeps el_name (order_page a f g) (opened_page a f g)"
    by (rule opened_page_keeps) simp_all
  show "querySelector_name (opened_page a f g) ''email'' = Some 6"
    using keeps_querySelector_name[OF kn, of "''email''"]
    by (simp add: querySelector_name_def order_page_el order_doc_def control_def node_def)
  let ?P = "\<lambda>e. (el_name e, el_type e, el_disabled e, el_checked e, el_ancestors e)"
  have k: "keeps ?P (order_page a f g) (opened_page a f g)"
    by (rule opened_page_keeps) simp_all
  have l: "length (doc (opened_page a f g)) = 23"
    using k by (simp add: keeps_def order_page_el order_doc_def)
  have e: "?P (el (opened_page a f g) 6) = ?P (order_doc a f g ! 6)"
    using keepsD[OF k, of 6] by (simp add: order_page_el)
  show "own_entry (opened_page a f g) 2 6"
    using e l
    by (simp add: own_entry_def submittable_def opened_page_facts order_page_lookup order_doc_nth
        control_def node_def)
qed


lemma padded_trim: "trim '' ali@example.com '' = ''ali@example.com''"
  by (simp add: trim_def is_space_def)

lemma padded_page_keeps:
  assumes "\<And>e v. P (e\<lparr>el_value := v\<rparr>) = P e"
  shows "keeps P (opened_page ''https://formspree.io/f/xabc1234'' ''Ali'' []) padded_email_page"
  unfolding padded_email_page_def using assms by (intro keeps_upd) simp

lemma padded_page_el:
  "el padded_email_page 6 = control ''email'' ''text'' '' ali@example.com '' True [1, 2]"
  "k \<noteq> 6 \<Longrightarrow> el padded_email_page k = el (opened_page ''https://formspree.io/f/xabc1234'' ''Ali'' []) k"
proof -
  let ?O = "opened_page ''https://formspree.io/f/xabc1234'' ''Ali'' []"
  have k: "keeps (\<lambda>e. ()) (order_page ''https://formspree.io/f/xabc1234'' ''Ali'' []) ?O"
    by (rule opened_page_keeps) simp_all
  have l: "6 < length (doc ?O)"
    using k by (simp add: keeps_def order_page_el order_doc_def)
  show "el padded_email_page 6 = control ''email'' ''text'' '' ali@example.com '' True [1, 2]"
    using l by (simp add: padded_email_page_def el_upd opened_page_other order_doc_nth control_def node_def)
  show "k \<noteq> 6 \<Longrightarrow> el padded_email_page k = el ?O k"
    by (simp add: padded_email_page_def el_upd)
qed

lemma padded_page_facts:
  "\<not> spam_detected padded_email_page"
  "fst (validateForm padded_email_page)"
  "configured padded_email_page"
  "has_closeOrderForm padded_email_page"
  "getElementById padded_email_page i =
     getElementById (order_page ''https://formspree.io/f/xabc1234'' ''Ali'' []) i"
  "outside_button padded_email_page k =
     outside_button (order_page ''https://formspree.io/f/xabc1234'' ''Ali'' []) k"
  "formFields padded_email_page = order_fields"
  "querySelector_name padded_email_page ''email'' = Some 6"
  "own_entry padded_email_page 2 6"
proof -
  let ?O = "opened_page ''https://formspree.io/f/xabc1234'' ''Ali'' []"
  let ?B = "order_page ''https://formspree.io/f/xabc1234'' ''Ali'' []"
  note k = padded_page_keeps
  show ff: "formFields padded_email_page = order_fields"
    by (simp add: padded_email_page_def)
  show "\<not> spam_detected padded_email_page"
    by (simp add: spam_detected_def ff padded_page_el order_fields_def opened_page_other
        order_doc_nth control_def node_def trims)
  have "keeps (\<lambda>e. (el_name e, field_ok e)) ?O padded_email_page"
  proof -
    have "field_ok (el padded_email_page 6) = field_ok (el ?O 6)"
      by (simp add: padded_page_el(1) opened_page_other order_doc_nth field_ok_def control_def
          node_def padded_trim trims)
    moreover have "el_name (el padded_email_page 6) = el_name (el ?O 6)"
      by (simp add: padded_page_el(1) opened_page_other order_doc_nth control_def node_def)
    moreover have "length (doc padded_email_page) = length (doc ?O)"
      by (simp add: padded_email_page_def)
    ultimately show ?thesis
      using padded_page_el(2) by (simp add: keeps_def) metis
  qed
  from validateForm_verdict_keeps[OF this]
  show "fst (validateForm padded_email_page)"
    by (simp add: ff opened_page_facts order_page_valid)
  show "configured padded_email_page"
    using configured_keeps[OF k[of "\<lambda>e. (el_id e, el_attrs e ''action'')"]]
    by (simp add: opened_page_facts order_page_configured)
  show "has_closeOrderForm padded_email_page"
    by (simp add: padded_email_page_def opened_page_facts)
  show "getElementById padded_email_page i = getElementById ?B i"
    using keeps_getElementById[OF k[of el_id]] by (simp add: opened_page_facts)
  show "outside_button padded_email_page k = outside_button ?B k"
    using outside_button_keeps[OF k[of fixed]] by (simp add: fixed_def opened_page_facts)
  show "querySelector_name padded_email_page ''email'' = Some 6"
    using keeps_querySelector_name[OF k[of el_name]] by (simp add: opened_page_email)
  have l: "length (doc padded_email_page) = length (doc ?O)"
    by (simp add: padded_email_page_def)
  show "own_entry padded_email_page 2 6"
    using opened_page_email(2)[of "''https://formspree.io/f/xabc1234''" "''Ali''" "[]"]
      keeps_getElementById[OF k[of el_id], of "''submitOrderBtn''"]
    by (simp add: own_entry_def l padded_page_el(1) opened_page_other order_doc_nth control_def
        node_def submittable_def)
qed

text \<open>
  Claim C3, as amended. A valid submission that is sent and answered with an ok
  response, on a page where the UI module is loaded and the two modals and the two
  display slots exist (the modals not inside the submit button), ends with the order
  modal hidden, the confirmation modal shown, and the slots showing the order id and
  the email of the order record; the one request sent carries that order id as
  \<^verbatim>\<open>orderId\<close> and that email as \<^verbatim>\<open>_replyto\<close>. The email shown is the trimmed value of
  the email field, whereas the \<^verbatim>\<open>email\<close> entry of the request is the field's value as
  typed: the two agree up to white space at the ends, not exactly.
\<close>

theorem successful_order_confirmed:
  assumes "\<not> spam_detected s" "fst (validateForm s)" "configured s"
    "fetch_outcome ev = Response True" "has_closeOrderForm s"
    "getElementById s ''orderModal'' = Some om"
    "getElementById s ''confirmationModal'' = Some cm"
    "getElementById s ''orderIdDisplay'' = Some oi"
    "getElementById s ''emailDisplay'' = Some em"
    "outside_button s om" "outside_button s cm"
  shows "el_display (el (handleSubmit ev s) om) = ''none'' \<and>
         el_display (el (handleSubmit ev s) cm) = ''flex'' \<and>
         el_textContent (el (handleSubmit ev s) oi) = od_orderId (getFormData ev s) \<and>
         el_textContent (el (handleSubmit ev s) em) = od_email (getFormData ev s) \<and>
         emitted s (handleSubmit ev s) = [PreventDefault] @ order_request ev s \<and>
         map (\<lambda>b. (FormData_get b ''orderId'', FormData_get b ''_replyto''))
           (bodies (order_request ev s)) =
           [(Some (od_orderId (getFormData ev s)), Some (od_email (getFormData ev s)))] \<and>
         (ff_email (formFields s) = Some e \<and> querySelector_name s ''email'' = Some e \<and>
          getElementById s ''shippingForm'' = Some f \<and> own_entry s f e \<longrightarrow>
            el_textContent (el (handleSubmit ev s) em) = trim (el_value (el s e)) \<and>
            map (\<lambda>b. FormData_get b ''email'') (bodies (order_request ev s)) =
              [Some (el_value (el s e))])"
proof -
  note c = handleSubmit_confirmed[OF assms]
  have "el_textContent (el (handleSubmit ev s) em) = trim (el_value (el s e))"
    if "ff_email (formFields s) = Some e"
    using c that by (simp add: getFormData_def trimmed_value_def)
  moreover have "map (\<lambda>b. FormData_get b ''email'') (bodies (order_request ev s)) =
      [Some (el_value (el s e))]"
    if "querySelector_name s ''email'' = Some e" "getElementById s ''shippingForm'' = Some f"
      "own_entry s f e"
    using first_entry_sent[OF that(2,3) assms(3) that(1)] .
  ultimately show ?thesis using c by blast
qed

theorem successful_order_confirmed_witness:
  "fetch_outcome (sample_env (Response True)) = Response True \<and>
   el_display (el (opened_page ''https://formspree.io/f/xabc1234'' ''Ali'' []) 1) = ''flex'' \<and>
   el_display (el (handleSubmit (sample_env (Response True))
      (opened_page ''https://formspree.io/f/xabc1234'' ''Ali'' [])) 1) = ''none'' \<and>
   el_display (el (handleSubmit (sample_env (Response True))
      (opened_page ''https://formspree.io/f/xabc1234'' ''Ali'' [])) 19) = ''flex'' \<and>
   el_textContent (el (handleSubmit (sample_env (Response True))
      (opened_page ''https://formspree.io/f/xabc1234'' ''Ali'' [])) 20) = ''RJ-1700000000000-4FZYO82'' \<and>
   el_textContent (el (handleSubmit (sample_env (Response True))
      (opened_page ''https://formspree.io/f/xabc1234'' ''Ali'' [])) 21) = ''ali@example.com'' \<and>
   map (\<lambda>b. FormData_get b ''email'')
     (bodies (order_request (sample_env (Response True))
        (opened_page ''https://formspree.io/f/xabc1234'' ''Ali'' []))) = [Some ''ali@example.com'']"
proof -
  let ?s = "opened_page ''https://formspree.io/f/xabc1234'' ''Ali'' []"
  let ?ev = "sample_env (Response True)"
  have a: "\<not> spam_detected ?s" by (simp add: opened_page_facts order_page_decoy trims)
  have b: "fst (validateForm ?s)" by (simp add: opened_page_facts order_page_valid)
  have c: "configured ?s" by (simp add: opened_page_facts order_page_configured)
  have d: "fetch_outcome ?ev = Response True" by (simp add: sample_env_def)
  have h: "has_closeOrderForm ?s" by (rule opened_page_facts)
  have l: "getElementById ?s ''orderModal'' = Some 1" "getElementById ?s ''confirmationModal'' = Some 19"
    "getElementById ?s ''orderIdDisplay'' = Some 20" "getElementById ?s ''emailDisplay'' = Some 21"
    by (simp_all add: opened_page_facts order_page_lookup)
  have o: "outside_button ?s 1" "outside_button ?s 19"
    using opened_page_modals(3,4)[of "''https://formspree.io/f/xabc1234''" "''Ali''" "[]"]
    by (simp_all only: opened_page_facts)
  have m: "ff_email (formFields ?s) = Some 6" "querySelector_name ?s ''email'' = Some 6"
    "getElementById ?s ''shippingForm'' = Some 2" "own_entry ?s 2 6"
    by (simp_all add: order_fields_def opened_page_email opened_page_facts order_page_lookup)
  have v: "el_value (el ?s 6) = ''ali@example.com''"
    by (simp add: opened_page_value order_doc_nth control_def node_def)
  note t = successful_order_confirmed[OF a b c d h l o, of 6 2]
  from t m have "map (\<lambda>b. FormData_get b ''email'') (bodies (order_request ?ev ?s)) =
      [Some (el_value (el ?s 6))]" by blast
  then show ?thesis
    using t d opened_page_modals(1)[of "''https://formspree.io/f/xabc1234''" "''Ali''" "[]"]
    by (simp add: opened_page_order v)
qed

text \<open>
  An email typed with a space on either side is sent with both spaces as the
  \<^verbatim>\<open>email\<close> entry of the request, and shown without them in the confirmation.
\<close>

theorem padded_email_shown_trimmed:
  "\<not> spam_detected padded_email_page \<and> fst (validateForm padded_email_page) \<and>
   configured padded_email_page \<and>
   emitted padded_email_page (handleSubmit (sample_env (Response True)) padded_email_page) =
     [PreventDefault] @ order_request (sample_env (Response True)) padded_email_page \<and>
   map (\<lambda>b. FormData_get b ''email'')
     (bodies (order_request (sample_env (Response True)) padded_email_page)) =
     [Some '' ali@example.com ''] \<and>
   el_textContent (el (handleSubmit (sample_env (Response True)) padded_email_page) 21) =
     ''ali@example.com''"
proof -
  let ?s = padded_email_page
  let ?ev = "sample_env (Response True)"
  note f = padded_page_facts
  have d: "fetch_outcome ?ev = Response True" by (simp add: sample_env_def)
  have l: "getElementById ?s ''orderModal'' = Some 1" "getElementById ?s ''confirmationModal'' = Some 19"
    "getElementById ?s ''orderIdDisplay'' = Some 20" "getElementById ?s ''emailDisplay'' = Some 21"
    "getElementById ?s ''shippingForm'' = Some 2"
    by (simp_all add: f(5) order_page_lookup)
  have o: "outside_button ?s 1" "outside_button ?s 19"
    using opened_page_modals(3,4)[of "''https://formspree.io/f/xabc1234''" "''Ali''" "[]"]
    by (simp_all only: f(6))
  note c = handleSubmit_confirmed[OF f(1,2,3) d f(4) l(1-4) o]
  have e: "od_email (getFormData ?ev ?s) = ''ali@example.com''"
    by (simp add: getFormData_def trimmed_value_def f(7) order_fields_def padded_page_el(1)
        control_def node_def padded_trim)
  have m: "map (\<lambda>b. FormData_get b ''email'') (bodies (order_request ?ev ?s)) =
      [Some (el_value (el ?s 6))]"
    by (rule first_entry_sent[OF l(5) f(9) f(3) f(8)])
  show ?thesis
    using f(1,2,3) c e m by (simp add: padded_page_el(1) control_def node_def)
qed

end
